theory Spec2Isabelle
  imports Complex_Main "HOL-Library.AList" "HOL-Library.Multiset" "HOL-Library.Log_Nat"
begin

section \<open>JavaScript numbers\<close>

text \<open>
  Every \<^verbatim>\<open>number\<close> of the source is an IEEE-754 double (binary64). The model keeps the
  special values: not-a-number, the two infinities and the negative zero (\<open>Fin 0\<close> is the
  positive zero). A finite value is the real number the double stands for. The operators
  \<^verbatim>\<open>+\<close>, \<^verbatim>\<open>-\<close>, \<^verbatim>\<open>*\<close> and \<^verbatim>\<open>/\<close> round the exact result to the nearest double, ties to the even
  significand, with gradual underflow and overflow to an infinity (\<open>rnd\<close> below); an
  operation with a zero, an infinity or a NaN operand gives what IEEE-754 gives, with no
  rounding to do.
\<close>

datatype jsnum = NaN | PInf | NInf | NZero | Fin real

fun val :: "jsnum \<Rightarrow> real" where
  "val (Fin r) = r"
| "val _ = 0"

fun rank :: "jsnum \<Rightarrow> int" where
  "rank NInf = -1"
| "rank PInf = 1"
| "rank _ = 0"

fun is_neg :: "jsnum \<Rightarrow> bool" where
  "is_neg NInf = True"
| "is_neg NZero = True"
| "is_neg (Fin r) = (r < 0)"
| "is_neg _ = False"

definition is_zero :: "jsnum \<Rightarrow> bool" where
  "is_zero a = (a = NZero \<or> a = Fin 0)"

definition is_inf :: "jsnum \<Rightarrow> bool" where
  "is_inf a = (a = PInf \<or> a = NInf)"

text \<open>The operators \<^verbatim>\<open><\<close>, \<^verbatim>\<open>>\<close>, \<^verbatim>\<open><=\<close>, \<^verbatim>\<open>>=\<close> and \<^verbatim>\<open>===\<close> on numbers:
  all false when an operand is NaN; the two zeros are equal.\<close>

definition js_lt :: "jsnum \<Rightarrow> jsnum \<Rightarrow> bool" where
  "js_lt a b = (a \<noteq> NaN \<and> b \<noteq> NaN \<and> (rank a < rank b \<or> (rank a = rank b \<and> val a < val b)))"

definition js_gt :: "jsnum \<Rightarrow> jsnum \<Rightarrow> bool" where
  "js_gt a b = js_lt b a"

definition js_eq :: "jsnum \<Rightarrow> jsnum \<Rightarrow> bool" where
  "js_eq a b = (a \<noteq> NaN \<and> b \<noteq> NaN \<and> rank a = rank b \<and> val a = val b)"

definition js_le :: "jsnum \<Rightarrow> jsnum \<Rightarrow> bool" where
  "js_le a b = (js_lt a b \<or> js_eq a b)"

definition js_ge :: "jsnum \<Rightarrow> jsnum \<Rightarrow> bool" where
  "js_ge a b = js_le b a"

text \<open>A finite result with its sign: a zero result keeps the sign the operation gives it.\<close>

definition signed :: "bool \<Rightarrow> real \<Rightarrow> jsnum" where
  "signed neg r = (if r = 0 then (if neg then NZero else Fin 0) else Fin r)"

text \<open>
  Rounding to the nearest double. \<open>expo x\<close> is the exponent of \<open>x\<close>, the \<open>k\<close> with
  \<open>2^k \<le> |x| < 2^(k+1)\<close>. A double has a significand of 53 bits, and no exponent below
  -1022, so the doubles around \<open>x\<close> are the multiples of \<open>2^e\<close> with \<open>e\<close> the larger of
  \<open>expo x - 52\<close> and -1074; \<open>x\<close> goes to the nearest of them, to the even multiple when two
  are equally near. A result of size \<open>2^1024\<close> or more is an infinity; a result that is zero
  keeps the sign of \<open>x\<close>.
\<close>

definition pow2 :: "int \<Rightarrow> real" where
  "pow2 e = (if 0 \<le> e then 2 ^ nat e else 1 / 2 ^ nat (- e))"

definition expo :: "real \<Rightarrow> int" where
  "expo x = (if 1 \<le> \<bar>x\<bar> then bitlen \<lfloor>\<bar>x\<bar>\<rfloor> - 1 else - bitlen (\<lceil>1 / \<bar>x\<bar>\<rceil> - 1))"

definition roundEven :: "real \<Rightarrow> int" where
  "roundEven q =
     (let f = \<lfloor>q\<rfloor>; d = q - of_int f
      in if d < 1 / 2 then f else if 1 / 2 < d then f + 1 else if even f then f else f + 1)"

definition rnd :: "real \<Rightarrow> jsnum" where
  "rnd x =
     (if x = 0 then Fin 0
      else (let e = max (expo x - 52) (- 1074);
                y = of_int (roundEven (x / pow2 e)) * pow2 e
            in if pow2 1024 \<le> \<bar>y\<bar> then (if x < 0 then NInf else PInf)
               else signed (x < 0) y))"

definition js_neg :: "jsnum \<Rightarrow> jsnum" where
  "js_neg a = (case a of NaN \<Rightarrow> NaN | PInf \<Rightarrow> NInf | NInf \<Rightarrow> PInf
                | NZero \<Rightarrow> Fin 0 | Fin r \<Rightarrow> signed True (- r))"

definition js_add :: "jsnum \<Rightarrow> jsnum \<Rightarrow> jsnum" where
  "js_add a b =
     (if a = NaN \<or> b = NaN then NaN
      else if is_inf a \<and> is_inf b then (if a = b then a else NaN)
      else if is_inf a then a
      else if is_inf b then b
      else if is_zero a \<and> is_zero b then signed (is_neg a \<and> is_neg b) 0
      else if is_zero b then a
      else if is_zero a then b
      else rnd (val a + val b))"

definition js_sub :: "jsnum \<Rightarrow> jsnum \<Rightarrow> jsnum" where
  "js_sub a b = js_add a (js_neg b)"

definition js_mul :: "jsnum \<Rightarrow> jsnum \<Rightarrow> jsnum" where
  "js_mul a b =
     (if a = NaN \<or> b = NaN then NaN
      else if (is_inf a \<and> is_zero b) \<or> (is_zero a \<and> is_inf b) then NaN
      else if is_inf a \<or> is_inf b then (if is_neg a \<noteq> is_neg b then NInf else PInf)
      else if is_zero a \<or> is_zero b then signed (is_neg a \<noteq> is_neg b) 0
      else rnd (val a * val b))"

definition js_div :: "jsnum \<Rightarrow> jsnum \<Rightarrow> jsnum" where
  "js_div a b =
     (if a = NaN \<or> b = NaN then NaN
      else if (is_inf a \<and> is_inf b) \<or> (is_zero a \<and> is_zero b) then NaN
      else if is_inf a \<or> is_zero b then (if is_neg a \<noteq> is_neg b then NInf else PInf)
      else if is_inf b \<or> is_zero a then signed (is_neg a \<noteq> is_neg b) 0
      else rnd (val a / val b))"

definition js_abs :: "jsnum \<Rightarrow> jsnum" where
  "js_abs a = (case a of NaN \<Rightarrow> NaN | PInf \<Rightarrow> PInf | NInf \<Rightarrow> PInf
                | NZero \<Rightarrow> Fin 0 | Fin r \<Rightarrow> Fin \<bar>r\<bar>)"

text \<open>Truthiness of a number, as in \<^verbatim>\<open>if (pairData.marketCap)\<close>: zero and NaN are falsy.\<close>

definition truthy :: "jsnum \<Rightarrow> bool" where
  "truthy a = (a \<noteq> NaN \<and> \<not> is_zero a)"

section \<open>Text\<close>

text \<open>
  A template string is kept as the list of its pieces: a literal, a number put into the
  string (\<open>Num\<close>), a number printed by \<^verbatim>\<open>toFixed\<close> with its digits (\<open>Fixed\<close>), and a
  string in upper case (\<open>Upper\<close>). The text a user reads is the concatenation of the
  pieces as JavaScript prints them; two equal piece lists print the same text.
\<close>

datatype piece = Lit string | Num jsnum | Fixed jsnum nat | Upper string | NL

type_synonym msgtext = "piece list"

section \<open>The alert record and the price service's answer\<close>

datatype AlertType = price_above | price_below | percent_change

record PriceAlert =
  alert_id :: string
  chatId :: jsnum
  tokenAddress :: string
  tokenSymbol :: string
  tokenName :: string
  chainId :: string
  pairAddress :: string
  alertType :: AlertType
  targetValue :: jsnum
  currentPrice :: jsnum
  createdAt :: jsnum
  lastChecked :: "jsnum option"

text \<open>\<open>priceUsd\<close> holds the number that \<^verbatim>\<open>parseFloat(pairData.priceUsd)\<close> yields
  (NaN for a string that is no number); the optional fields are \<open>None\<close> when absent.\<close>

record DexPairData =
  priceUsd :: jsnum
  priceChange_h24 :: "jsnum option"
  volume_h24 :: "jsnum option"
  marketCap :: "jsnum option"

record DexScreenerResponse =
  pairs :: "DexPairData list option"

section \<open>The alert conditions\<close>

text \<open>\<^verbatim>\<open>currentPrice < 0.01 ? currentPrice.toFixed(8) : currentPrice.toFixed(2)\<close>. The
  literal \<^verbatim>\<open>0.01\<close> is the double next above 1/100, and no double lies between the two: a
  double is below the one exactly when it is below the other.\<close>

definition priceFormatted :: "jsnum \<Rightarrow> piece" where
  "priceFormatted p = (if js_lt p (Fin (1 / 100)) then Fixed p 8 else Fixed p 2)"

text \<open>\<^verbatim>\<open>((currentPrice - alert.currentPrice) / alert.currentPrice) * 100\<close>, three
  operations on doubles: the first argument is the alert, whose field \<open>currentPrice\<close> is
  the price stored at creation, the second the price just fetched.\<close>

definition percentChange :: "PriceAlert \<Rightarrow> jsnum \<Rightarrow> jsnum" where
  "percentChange alert cur =
     js_mul (js_div (js_sub cur (currentPrice alert)) (currentPrice alert)) (Fin 100)"

text \<open>The conditions of \<^verbatim>\<open>checkAlerts\<close> (the chain of \<^verbatim>\<open>if\<close>s over \<^verbatim>\<open>alert.alertType\<close>):
  the result is \<^verbatim>\<open>triggerMessage\<close> when \<^verbatim>\<open>shouldTrigger\<close> was set, and \<open>None\<close> when it
  stayed false.\<close>

definition triggerMessage :: "PriceAlert \<Rightarrow> jsnum \<Rightarrow> msgtext option" where
  "triggerMessage alert cur =
     (if alertType alert = price_above \<and> js_gt cur (targetValue alert) then
        Some [Lit ''*Price Alert Triggered*'', NL, NL,
              Lit (tokenName alert), Lit '' ('', Lit (tokenSymbol alert),
              Lit '') has surpassed your target price.'', NL, NL,
              Lit ''Current Price: $'', priceFormatted cur, NL,
              Lit ''Target Price: $'', Num (targetValue alert), NL,
              Lit ''Price Change: +'', Fixed (percentChange alert cur) 2, Lit ''%'']
      else if alertType alert = price_below \<and> js_lt cur (targetValue alert) then
        Some [Lit ''*Price Alert Triggered*'', NL, NL,
              Lit (tokenName alert), Lit '' ('', Lit (tokenSymbol alert),
              Lit '') has fallen below your target price.'', NL, NL,
              Lit ''Current Price: $'', priceFormatted cur, NL,
              Lit ''Target Price: $'', Num (targetValue alert), NL,
              Lit ''Price Change: '', Fixed (percentChange alert cur) 2, Lit ''%'']
      else if alertType alert = percent_change then
        (if js_gt (targetValue alert) (Fin 0)
            \<and> js_ge (percentChange alert cur) (targetValue alert) then
           Some [Lit ''*Price Alert Triggered*'', NL, NL,
                 Lit (tokenName alert), Lit '' ('', Lit (tokenSymbol alert),
                 Lit '') has gained '', Fixed (percentChange alert cur) 2, Lit ''%'', NL, NL,
                 Lit ''Current Price: $'', priceFormatted cur, NL,
                 Lit ''Starting Price: $'', priceFormatted (currentPrice alert), NL,
                 Lit ''Target Gain: +'', Num (targetValue alert), Lit ''%'']
         else if js_lt (targetValue alert) (Fin 0)
            \<and> js_le (percentChange alert cur) (targetValue alert) then
           Some [Lit ''*Price Alert Triggered*'', NL, NL,
                 Lit (tokenName alert), Lit '' ('', Lit (tokenSymbol alert),
                 Lit '') has dropped '', Fixed (js_abs (percentChange alert cur)) 2,
                 Lit ''%'', NL, NL,
                 Lit ''Current Price: $'', priceFormatted cur, NL,
                 Lit ''Starting Price: $'', priceFormatted (currentPrice alert), NL,
                 Lit ''Target Drop: '', Num (targetValue alert), Lit ''%'']
         else None)
      else None)"

definition shouldTrigger :: "PriceAlert \<Rightarrow> jsnum \<Rightarrow> bool" where
  "shouldTrigger alert cur = (triggerMessage alert cur \<noteq> None)"

section \<open>The outside world\<close>

text \<open>
  What \<^verbatim>\<open>fetch\<close> gives for the search URL of a pair address: the call throws, or it
  resolves to a response with \<^verbatim>\<open>ok\<close>, \<^verbatim>\<open>status\<close> and a body that \<^verbatim>\<open>response.json()\<close>
  parses or throws on.
\<close>

datatype json_result = JsonThrows | Json DexScreenerResponse

record Response =
  ok :: bool
  status :: nat
  json :: json_result

datatype fetch_result = FetchThrows | Resolved Response

text \<open>
  The environment of one run: the answer of the price service for each pair address (a
  run fetches an address once, so one answer for each address describes it), and whether
  \<^verbatim>\<open>bot.api.sendMessage\<close> resolves (\<open>True\<close>) or throws (\<open>False\<close>); the first argument
  of \<open>sendMessage\<close> counts the sends made before, so two sends of one text to one chat
  may end differently.
\<close>

record env =
  fetch :: "string \<Rightarrow> fetch_result"
  sendMessage :: "nat \<Rightarrow> jsnum \<Rightarrow> msgtext \<Rightarrow> bool"

text \<open>The lines written by \<^verbatim>\<open>console.log\<close>, \<^verbatim>\<open>console.warn\<close> and \<^verbatim>\<open>console.error\<close>.\<close>

datatype log_entry =
    LogRegistered string string
  | LogRemoved string
  | LogNoActive
  | LogInitiating nat
  | LogHttpFailed string nat
  | LogNoMarketData string
  | LogTriggered string
  | LogDeliveryFailed string
  | LogPairError string
  | LogCycleCompleted
  | LogPriceError string
  | LogConfirmFailed

text \<open>
  The state: the value stored under the key \<^verbatim>\<open>'alerts'\<close> of the durable object's
  storage (\<open>None\<close> before the first \<^verbatim>\<open>put\<close>), a \<^verbatim>\<open>Map\<close> in insertion order; the pair
  addresses looked up so far; the sends tried so far with their outcome; the console;
  the replies given to the chat. Reads and writes of the storage never fail here, and
  one operation runs at a time.
\<close>

type_synonym alertsMap = "(string \<times> PriceAlert) list"

record world =
  storage :: "alertsMap option"
  lookups :: "string list"
  sends :: "(jsnum \<times> msgtext \<times> bool) list"
  logs :: "log_entry list"
  replies :: "msgtext list"

definition console :: "log_entry \<Rightarrow> world \<Rightarrow> world" where
  "console l w = w\<lparr>logs := logs w @ [l]\<rparr>"

definition reply :: "msgtext \<Rightarrow> world \<Rightarrow> world" where
  "reply t w = w\<lparr>replies := replies w @ [t]\<rparr>"

section \<open>The alert store\<close>

definition getAllAlerts :: "world \<Rightarrow> PriceAlert list" where
  "getAllAlerts w = (case storage w of None \<Rightarrow> [] | Some alertsMap \<Rightarrow> map snd alertsMap)"

definition getAlertsForChat :: "world \<Rightarrow> jsnum \<Rightarrow> PriceAlert list" where
  "getAlertsForChat w c = filter (\<lambda>alert. js_eq (chatId alert) c) (getAllAlerts w)"

definition addAlert :: "world \<Rightarrow> PriceAlert \<Rightarrow> world" where
  "addAlert w alert =
     (let alertsMap = (case storage w of None \<Rightarrow> [] | Some m \<Rightarrow> m)
      in console (LogRegistered (alert_id alert) (tokenSymbol alert))
           (w\<lparr>storage := Some (AList.update (alert_id alert) alert alertsMap)\<rparr>))"

text \<open>\<^verbatim>\<open>removeAlert\<close> has no \<^verbatim>\<open>return\<close>: its promise resolves to \<^verbatim>\<open>undefined\<close>, the first
  component here, whatever the store held.\<close>

definition removeAlert :: "world \<Rightarrow> string \<Rightarrow> PriceAlert option \<times> world" where
  "removeAlert w alertId =
     (case storage w of
        None \<Rightarrow> (None, w)
      | Some alertsMap \<Rightarrow>
          (None, console (LogRemoved alertId)
                   (w\<lparr>storage := Some (AList.delete alertId alertsMap)\<rparr>)))"

section \<open>The monitoring cycle\<close>

text \<open>Batching by pair address: \<^verbatim>\<open>pairMap.get(alert.pairAddress) || []\<close>, \<^verbatim>\<open>push\<close>,
  \<^verbatim>\<open>pairMap.set\<close>.\<close>

definition groupStep :: "(string \<times> PriceAlert list) list \<Rightarrow> PriceAlert \<Rightarrow> (string \<times> PriceAlert list) list" where
  "groupStep pairMap alert =
     (let existing = (case map_of pairMap (pairAddress alert) of None \<Rightarrow> [] | Some x \<Rightarrow> x)
      in AList.update (pairAddress alert) (existing @ [alert]) pairMap)"

definition groupByPair :: "PriceAlert list \<Rightarrow> (string \<times> PriceAlert list) list" where
  "groupByPair alerts = foldl groupStep [] alerts"

definition additionalInfo :: "DexPairData \<Rightarrow> msgtext" where
  "additionalInfo pairData =
     (case marketCap pairData of
        None \<Rightarrow> []
      | Some mc \<Rightarrow>
          if truthy mc then
            [NL, Lit ''Market Cap: ''] @
            (if js_ge mc (Fin 1000000)
             then [Lit ''$'', Fixed (js_div mc (Fin 1000000)) 2, Lit ''M'']
             else [Lit ''$'', Fixed (js_div mc (Fin 1000)) 2, Lit ''K''])
          else []) @
     (case priceChange_h24 pairData of
        None \<Rightarrow> []
      | Some h24 \<Rightarrow>
          if truthy h24 then
            [NL, Lit ''24h Change: ''] @ (if js_gt h24 (Fin 0) then [Lit ''+''] else []) @
            [Fixed h24 2, Lit ''%'']
          else [])"

text \<open>The body of the loop over the alerts of one pair, with the price just fetched.\<close>

definition processAlert :: "env \<Rightarrow> DexPairData \<Rightarrow> jsnum \<Rightarrow> world \<Rightarrow> PriceAlert \<Rightarrow> world" where
  "processAlert e pairData cur w alert =
     (case triggerMessage alert cur of
        None \<Rightarrow> w
      | Some msg \<Rightarrow>
          (let body = msg @ additionalInfo pairData @ [NL, NL, Lit ''Chain: '', Upper (chainId alert)];
               delivered = sendMessage e (length (sends w)) (chatId alert) body;
               w1 = w\<lparr>sends := sends w @ [(chatId alert, body, delivered)]\<rparr>
           in if delivered
              then console (LogTriggered (alert_id alert)) (snd (removeAlert w1 (alert_id alert)))
              else console (LogDeliveryFailed (alert_id alert)) w1))"

text \<open>The body of the loop over the pairs: one \<^verbatim>\<open>fetch\<close>, then the alerts of the pair.\<close>

definition checkPair :: "env \<Rightarrow> world \<Rightarrow> string \<times> PriceAlert list \<Rightarrow> world" where
  "checkPair e w g =
     (case g of (pair, pairAlerts) \<Rightarrow>
        (let w1 = w\<lparr>lookups := lookups w @ [pair]\<rparr>
         in case fetch e pair of
              FetchThrows \<Rightarrow> console (LogPairError pair) w1
            | Resolved response \<Rightarrow>
                if \<not> ok response then console (LogHttpFailed pair (status response)) w1
                else (case json response of
                        JsonThrows \<Rightarrow> console (LogPairError pair) w1
                      | Json data \<Rightarrow>
                          (case pairs data of
                             None \<Rightarrow> console (LogNoMarketData pair) w1
                           | Some [] \<Rightarrow> console (LogNoMarketData pair) w1
                           | Some (pairData # _) \<Rightarrow>
                               foldl (processAlert e pairData (priceUsd pairData)) w1 pairAlerts))))"

definition checkAlerts :: "env \<Rightarrow> world \<Rightarrow> world" where
  "checkAlerts e w =
     (let alerts = getAllAlerts w
      in if alerts = [] then console LogNoActive w
         else console LogCycleCompleted
                (foldl (checkPair e) (console (LogInitiating (length alerts)) w)
                   (groupByPair alerts)))"

section \<open>Cancelling an alert\<close>

text \<open>The tool \<^verbatim>\<open>cancelAlert\<close>: the answer given to the caller, and the state after. The
  optional \<^verbatim>\<open>telegramChatId\<close> is \<open>None\<close> when the caller left it out.\<close>

definition cancelAlert :: "env \<Rightarrow> world \<Rightarrow> string \<Rightarrow> jsnum option \<Rightarrow> msgtext \<times> world" where
  "cancelAlert e w alertId telegramChatId =
     (case removeAlert w alertId of
        (None, w1) \<Rightarrow>
          ([Lit ''Alert '', Lit alertId,
            Lit '' could not be located. It may have already been triggered or previously canceled.''],
           w1)
      | (Some alert, w1) \<Rightarrow>
          (let w2 =
             (case telegramChatId of
                None \<Rightarrow> w1
              | Some c \<Rightarrow>
                  if truthy c then
                    (let body = [Lit ''*Alert Canceled*'', NL, NL,
                                 Lit (tokenName alert), Lit '' ('', Lit (tokenSymbol alert),
                                 Lit '')'', NL, Lit ''Alert ID: '', Lit alertId];
                         delivered = sendMessage e (length (sends w1)) c body;
                         w' = w1\<lparr>sends := sends w1 @ [(c, body, delivered)]\<rparr>
                     in if delivered then w' else console LogConfirmFailed w')
                  else w1)
           in ([Lit ''Alert '', Lit alertId, Lit '' for '', Lit (tokenSymbol alert),
                Lit '' has been successfully canceled. Price monitoring has been stopped for this token.''],
               w2)))"

section \<open>Listing the alerts of a chat\<close>

text \<open>The body of the loop of \<^verbatim>\<open>/myalerts\<close> over the pairs: the state and
  \<^verbatim>\<open>alertsWithPrices\<close> go in and come out.\<close>

definition pricesStep ::
  "env \<Rightarrow> world \<times> (PriceAlert \<times> jsnum) list \<Rightarrow> string \<times> PriceAlert list
     \<Rightarrow> world \<times> (PriceAlert \<times> jsnum) list" where
  "pricesStep e s g =
     (case s of (w, alertsWithPrices) \<Rightarrow>
      case g of (pair, pairAlerts) \<Rightarrow>
        (let w1 = w\<lparr>lookups := lookups w @ [pair]\<rparr>;
             fallback = alertsWithPrices @ map (\<lambda>alert. (alert, currentPrice alert)) pairAlerts
         in case fetch e pair of
              FetchThrows \<Rightarrow> (console (LogPriceError pair) w1, fallback)
            | Resolved response \<Rightarrow>
                if ok response then
                  (case json response of
                     JsonThrows \<Rightarrow> (console (LogPriceError pair) w1, fallback)
                   | Json data \<Rightarrow>
                       (case pairs data of
                          None \<Rightarrow> (w1, fallback)
                        | Some [] \<Rightarrow> (w1, fallback)
                        | Some (pairData # _) \<Rightarrow>
                            (w1, alertsWithPrices @
                                   map (\<lambda>alert. (alert, priceUsd pairData)) pairAlerts)))
                else (w1, fallback)))"

definition condition :: "PriceAlert \<Rightarrow> msgtext" where
  "condition alert =
     (if alertType alert = price_above then [Lit ''above $'', Num (targetValue alert)]
      else if alertType alert = price_below then [Lit ''below $'', Num (targetValue alert)]
      else (if js_gt (targetValue alert) (Fin 0) then [Lit ''+''] else []) @
           [Num (targetValue alert), Lit ''%''])"

definition alertEntry :: "nat \<Rightarrow> PriceAlert \<times> jsnum \<Rightarrow> msgtext" where
  "alertEntry index item =
     (case item of (alert, cur) \<Rightarrow>
        [Num (Fin (real (index + 1))), Lit ''. '', Lit (tokenName alert), Lit '' ('',
         Lit (tokenSymbol alert), Lit '')'', NL,
         Lit ''   Chain: '', Upper (chainId alert), NL,
         Lit ''   Current: $'', priceFormatted cur, NL,
         Lit ''   Alert: ''] @ condition alert)"

fun joinWith :: "msgtext \<Rightarrow> msgtext list \<Rightarrow> msgtext" where
  "joinWith sep [] = []"
| "joinWith sep [x] = x"
| "joinWith sep (x # y # ys) = x @ sep @ joinWith sep (y # ys)"

definition alertList :: "(PriceAlert \<times> jsnum) list \<Rightarrow> msgtext" where
  "alertList alertsWithPrices =
     joinWith [NL, NL] (map (\<lambda>(index, item). alertEntry index item) (enumerate 0 alertsWithPrices))"

definition alertsWithPrices :: "env \<Rightarrow> world \<Rightarrow> jsnum \<Rightarrow> world \<times> (PriceAlert \<times> jsnum) list" where
  "alertsWithPrices e w c =
     foldl (pricesStep e) (reply [Lit ''Fetching current market prices...''] w, [])
       (groupByPair (getAlertsForChat w c))"

definition myalerts :: "env \<Rightarrow> world \<Rightarrow> jsnum \<Rightarrow> world" where
  "myalerts e w c =
     (if getAlertsForChat w c = []
      then reply [Lit ''You currently have no active price alerts configured.''] w
      else (case alertsWithPrices e w c of
              (w2, items) \<Rightarrow>
                reply ([Lit ''*Active Price Alerts* ('', Num (Fin (real (length items))),
                        Lit '')'', NL, NL] @ alertList items) w2))"

section \<open>Notions used to state the properties\<close>

text \<open>The pair data a lookup yields when it succeeds; \<open>None\<close> when \<^verbatim>\<open>fetch\<close> throws, the
  status is not ok, the body does not parse, or \<^verbatim>\<open>pairs\<close> is missing or empty.\<close>

definition fetched :: "env \<Rightarrow> string \<Rightarrow> DexPairData option" where
  "fetched e pair =
     (case fetch e pair of
        FetchThrows \<Rightarrow> None
      | Resolved response \<Rightarrow>
          if ok response then
            (case json response of
               JsonThrows \<Rightarrow> None
             | Json data \<Rightarrow> (case pairs data of Some (pairData # _) \<Rightarrow> Some pairData | _ \<Rightarrow> None))
          else None)"

text \<open>The store as \<^verbatim>\<open>addAlert\<close> builds it: keys are distinct (it is a \<^verbatim>\<open>Map\<close>), and every
  alert is stored under its own id.\<close>

definition store_ok :: "alertsMap \<Rightarrow> bool" where
  "store_ok m = (distinct (map fst m) \<and> list_all (\<lambda>(k, alert). alert_id alert = k) m)"

text \<open>The console lines a cycle writes, and the pair addresses it looks up.\<close>

definition cycleLog :: "env \<Rightarrow> world \<Rightarrow> log_entry list" where
  "cycleLog e w = drop (length (logs w)) (logs (checkAlerts e w))"

definition cycleLookups :: "env \<Rightarrow> world \<Rightarrow> string list" where
  "cycleLookups e w = drop (length (lookups w)) (lookups (checkAlerts e w))"

text \<open>\<^verbatim>\<open>alertsMap.get(id)\<close> on the stored map.\<close>

definition storedAlert :: "world \<Rightarrow> string \<Rightarrow> PriceAlert option" where
  "storedAlert w i = (case storage w of None \<Rightarrow> None | Some alertsMap \<Rightarrow> map_of alertsMap i)"

text \<open>The ids a list of console lines reports as triggered and removed, and as not
  delivered; a map without the entries of some ids.\<close>

definition triggeredIds :: "log_entry list \<Rightarrow> string set" where
  "triggeredIds L = {i. LogTriggered i \<in> set L}"

definition undeliveredIds :: "log_entry list \<Rightarrow> string set" where
  "undeliveredIds L = {i. LogDeliveryFailed i \<in> set L}"

definition without :: "string set \<Rightarrow> alertsMap \<Rightarrow> alertsMap" where
  "without R m = filter (\<lambda>(k, alert). k \<notin> R) m"

text \<open>The outcomes of the sends that a list of console lines reports, in order: a line
  \<open>LogTriggered\<close> follows a send that resolved, a line \<open>LogDeliveryFailed\<close> one that threw.\<close>

definition verdicts :: "log_entry list \<Rightarrow> bool list" where
  "verdicts L =
     concat (map (\<lambda>l. case l of LogTriggered i \<Rightarrow> [True] | LogDeliveryFailed i \<Rightarrow> [False] | _ \<Rightarrow> []) L)"

text \<open>An alert is due when the lookup of its pair succeeds and the fetched price meets its
  condition.\<close>

definition isDue :: "env \<Rightarrow> PriceAlert \<Rightarrow> bool" where
  "isDue e alert =
     (case fetched e (pairAddress alert) of
        None \<Rightarrow> False
      | Some pairData \<Rightarrow> shouldTrigger alert (priceUsd pairData))"

text \<open>What a run of steps did to the state: the lines \<open>L\<close> were written, the store lost
  the entries whose ids \<open>L\<close> reports as triggered, and nothing else, and the sends tried
  ended as \<open>L\<close> reports.\<close>

definition effect :: "world \<Rightarrow> world \<Rightarrow> log_entry list \<Rightarrow> bool" where
  "effect w w' L =
     (logs w' = logs w @ L \<and> replies w' = replies w \<and>
      storage w' = map_option (without (triggeredIds L)) (storage w) \<and>
      (\<exists>S. sends w' = sends w @ S \<and> map (\<lambda>s. snd (snd s)) S = verdicts L))"

text \<open>The sends a cycle tries.\<close>

definition cycleSends :: "env \<Rightarrow> world \<Rightarrow> (jsnum \<times> msgtext \<times> bool) list" where
  "cycleSends e w = drop (length (sends w)) (sends (checkAlerts e w))"

text \<open>The price \<^verbatim>\<open>/myalerts\<close> shows for an alert: the fetched one, or the price stored with
  the alert when the lookup of its pair fails.\<close>

definition shownPrice :: "env \<Rightarrow> PriceAlert \<Rightarrow> jsnum" where
  "shownPrice e alert =
     (case fetched e (pairAddress alert) of
        None \<Rightarrow> currentPrice alert
      | Some pairData \<Rightarrow> priceUsd pairData)"

section \<open>Example data\<close>

definition alertA :: PriceAlert where
  "alertA = \<lparr>alert_id = ''a1'', chatId = Fin 7, tokenAddress = ''0xaa'', tokenSymbol = ''AAA'',
     tokenName = ''Token A'', chainId = ''eth'', pairAddress = ''P1'', alertType = price_above,
     targetValue = Fin 100, currentPrice = Fin 90, createdAt = Fin 1, lastChecked = None\<rparr>"

definition alertB :: PriceAlert where
  "alertB = \<lparr>alert_id = ''b1'', chatId = Fin 7, tokenAddress = ''0xbb'', tokenSymbol = ''BBB'',
     tokenName = ''Token B'', chainId = ''bsc'', pairAddress = ''P2'', alertType = percent_change,
     targetValue = Fin (-10), currentPrice = Fin 50, createdAt = Fin 2, lastChecked = None\<rparr>"


definition alertZ :: PriceAlert where
  "alertZ = \<lparr>alert_id = ''z1'', chatId = Fin 8, tokenAddress = ''0xcc'', tokenSymbol = ''ZZZ'',
     tokenName = ''Token Z'', chainId = ''eth'', pairAddress = ''P3'', alertType = percent_change,
     targetValue = Fin 5, currentPrice = Fin 0, createdAt = Fin 3, lastChecked = None\<rparr>"

definition world0 :: world where
  "world0 = \<lparr>storage = None, lookups = [], sends = [], logs = [], replies = []\<rparr>"

definition world1 :: world where
  "world1 = world0\<lparr>storage := Some [(''a1'', alertA)]\<rparr>"

definition world2 :: world where
  "world2 = world0\<lparr>storage := Some [(''a1'', alertA), (''b1'', alertB)]\<rparr>"

definition quote :: "jsnum \<Rightarrow> fetch_result" where
  "quote p = Resolved \<lparr>ok = True, status = 200,
     json = Json \<lparr>pairs = Some [\<lparr>priceUsd = p, priceChange_h24 = None, volume_h24 = None,
                                 marketCap = None\<rparr>]\<rparr>\<rparr>"

definition envSendFails :: env where
  "envSendFails = \<lparr>fetch = (\<lambda>pair. quote (Fin 101)), sendMessage = (\<lambda>n c t. False)\<rparr>"

definition envSendWorks :: env where
  "envSendWorks = \<lparr>fetch = (\<lambda>pair. quote (Fin 101)), sendMessage = (\<lambda>n c t. True)\<rparr>"

definition envP1Down :: env where
  "envP1Down = \<lparr>fetch = (\<lambda>pair. if pair = ''P1'' then FetchThrows else quote (Fin 44)),
     sendMessage = (\<lambda>n c t. True)\<rparr>"

definition envLive90 :: env where
  "envLive90 = \<lparr>fetch = (\<lambda>pair. quote (Fin 90)), sendMessage = (\<lambda>n c t. True)\<rparr>"

definition envHttp500 :: env where
  "envHttp500 = \<lparr>fetch = (\<lambda>pair. Resolved \<lparr>ok = False, status = 500, json = JsonThrows\<rparr>),
     sendMessage = (\<lambda>n c t. True)\<rparr>"

definition alertA2 :: PriceAlert where
  "alertA2 = alertA\<lparr>alert_id := ''a2'', targetValue := Fin 200\<rparr>"

definition world3 :: world where
  "world3 = world0\<lparr>storage := Some [(''a1'', alertA), (''b1'', alertB), (''a2'', alertA2)]\<rparr>"

section \<open>Numbers: comparisons\<close>

lemma js_cmp_Fin:
  "js_lt (Fin x) (Fin y) = (x < y)" "js_gt (Fin x) (Fin y) = (y < x)"
  "js_le (Fin x) (Fin y) = (x \<le> y)" "js_ge (Fin x) (Fin y) = (y \<le> x)"
  "js_eq (Fin x) (Fin y) = (x = y)"
  by (auto simp: js_lt_def js_gt_def js_le_def js_ge_def js_eq_def)

lemma js_eq_not_lt: "js_eq a b \<Longrightarrow> \<not> js_lt a b \<and> \<not> js_gt a b"
  by (auto simp: js_lt_def js_gt_def js_eq_def)

lemma js_NaN_cmp:
  "\<not> js_lt NaN b" "\<not> js_lt a NaN" "\<not> js_gt NaN b" "\<not> js_gt a NaN" "\<not> js_eq NaN b"
  "\<not> js_eq a NaN" "\<not> js_le NaN b" "\<not> js_le a NaN" "\<not> js_ge NaN b" "\<not> js_ge a NaN"
  by (simp_all add: js_lt_def js_gt_def js_le_def js_ge_def js_eq_def)

section \<open>Numbers: rounding\<close>

text \<open>\<open>expo\<close> is the exponent, \<open>roundEven\<close> and \<open>rnd\<close> go to a nearest neighbour.\<close>

lemma pow2_powi: "pow2 e = 2 powi e"
  by (simp add: pow2_def power_int_def inverse_eq_divide power_one_over)

lemma pow2_pos: "0 < pow2 e"
  by (simp add: pow2_def)

lemma pow2_less_iff: "pow2 a < pow2 b \<longleftrightarrow> a < b"
proof
  assume "pow2 a < pow2 b"
  show "a < b"
  proof (rule ccontr)
    assume "\<not> a < b"
    then have "pow2 b \<le> pow2 a"
      unfolding pow2_powi by (intro power_int_increasing) simp_all
    with \<open>pow2 a < pow2 b\<close> show False by simp
  qed
next
  assume "a < b"
  then show "pow2 a < pow2 b"
    unfolding pow2_powi by (intro power_int_strict_increasing) simp_all
qed

lemma real_le_pow2:
  fixes i :: int
  shows "i \<le> 2 ^ n \<Longrightarrow> (of_int i :: real) \<le> 2 ^ n"
    and "2 ^ n \<le> i \<Longrightarrow> (2 :: real) ^ n \<le> of_int i"
proof -
  have r: "(of_int (2 ^ n :: int) :: real) = 2 ^ n" by simp
  show "i \<le> 2 ^ n \<Longrightarrow> (of_int i :: real) \<le> 2 ^ n"
    using of_int_le_iff[of i "2 ^ n", where ?'a = real] unfolding r by blast
  show "2 ^ n \<le> i \<Longrightarrow> (2 :: real) ^ n \<le> of_int i"
    using of_int_le_iff[of "2 ^ n" i, where ?'a = real] unfolding r by blast
qed

lemma expo_bounds:
  assumes "x \<noteq> 0"
  shows "pow2 (expo x) \<le> \<bar>x\<bar> \<and> \<bar>x\<bar> < pow2 (expo x + 1)"
proof (cases "1 \<le> \<bar>x\<bar>")
  case True
  define m where "m = \<lfloor>\<bar>x\<bar>\<rfloor>"
  have m: "0 < m" "of_int m \<le> \<bar>x\<bar>" "\<bar>x\<bar> < of_int m + 1"
    using True by (simp_all add: m_def)
  have b: "2 ^ nat (bitlen m - 1) \<le> m" "m < 2 ^ nat (bitlen m)"
    using bitlen_bounds[OF m(1)] by simp_all
  have k: "1 \<le> bitlen m" using m(1) by (simp add: bitlen_alt_def)
  have e: "expo x = bitlen m - 1" using True by (simp add: expo_def m_def)
  have p1: "pow2 (expo x) = 2 ^ nat (bitlen m - 1)"
    using k by (simp add: e pow2_def)
  have "(2 :: real) ^ nat (bitlen m - 1) \<le> of_int m" using b(1) by (rule real_le_pow2(2))
  then have lo: "pow2 (expo x) \<le> \<bar>x\<bar>" using m(2) p1 by linarith
  have "m + 1 \<le> 2 ^ nat (bitlen m)" using b(2) by simp
  then have "(of_int (m + 1) :: real) \<le> 2 ^ nat (bitlen m)" by (rule real_le_pow2(1))
  moreover have "pow2 (expo x + 1) = 2 ^ nat (bitlen m)"
    using k by (simp add: e pow2_def)
  ultimately have hi: "\<bar>x\<bar> < pow2 (expo x + 1)" using m(3) by simp
  show ?thesis using lo hi by simp
next
  case False
  define y where "y = 1 / \<bar>x\<bar>"
  define c where "c = \<lceil>y\<rceil>"
  have x: "0 < \<bar>x\<bar>" "\<bar>x\<bar> < 1" using assms False by simp_all
  have y: "1 < y" using x by (simp add: y_def)
  have c: "y \<le> of_int c" "of_int c - 1 < y" "1 < c"
    using y by (simp_all add: c_def) linarith+
  define k where "k = bitlen (c - 1)"
  have pos: "0 < c - 1" using c(3) by simp
  have b: "2 ^ nat (k - 1) \<le> c - 1" "c - 1 < 2 ^ nat k"
    using bitlen_bounds[OF pos] by (simp_all add: k_def)
  have k1: "1 \<le> k" using pos by (simp add: k_def bitlen_alt_def)
  have e: "expo x = - k" using False by (simp add: expo_def k_def c_def y_def)
  have "c \<le> 2 ^ nat k" using b(2) by simp
  then have "(of_int c :: real) \<le> 2 ^ nat k" by (rule real_le_pow2(1))
  then have "y \<le> 2 ^ nat k" using c(1) by linarith
  then have "1 / 2 ^ nat k \<le> \<bar>x\<bar>"
    using x(1) by (simp add: y_def field_simps)
  then have lo: "pow2 (expo x) \<le> \<bar>x\<bar>" using k1 by (simp add: e pow2_def)
  have "(2 :: real) ^ nat (k - 1) \<le> of_int (c - 1)" using b(1) by (rule real_le_pow2(2))
  then have "2 ^ nat (k - 1) < y" using c(2) by simp
  then have lt: "\<bar>x\<bar> < 1 / 2 ^ nat (k - 1)"
    using x(1) by (simp add: y_def field_simps)
  have "pow2 (expo x + 1) = 1 / 2 ^ nat (k - 1)"
    using k1 by (cases "k = 1") (simp_all add: e pow2_def)
  then have hi: "\<bar>x\<bar> < pow2 (expo x + 1)" using lt by simp
  show ?thesis using lo hi by simp
qed

lemma expo_eqI:
  assumes "pow2 k \<le> \<bar>x\<bar>" and "\<bar>x\<bar> < pow2 (k + 1)"
  shows "expo x = k"
proof -
  have "x \<noteq> 0" using assms(1) pow2_pos[of k] by auto
  then have b: "pow2 (expo x) \<le> \<bar>x\<bar>" "\<bar>x\<bar> < pow2 (expo x + 1)"
    using expo_bounds by simp_all
  have "pow2 (expo x) < pow2 (k + 1)" using b(1) assms(2) by simp
  then have "expo x < k + 1" by (simp only: pow2_less_iff)
  moreover have "pow2 k < pow2 (expo x + 1)" using b(2) assms(1) by simp
  then have "k < expo x + 1" by (simp only: pow2_less_iff)
  ultimately show ?thesis by simp
qed

lemma roundEven_nearest: "\<bar>of_int (roundEven q) - q\<bar> \<le> 1 / 2"
proof -
  have "of_int \<lfloor>q\<rfloor> \<le> q" "q < of_int \<lfloor>q\<rfloor> + 1" by linarith+
  then show ?thesis by (auto simp: roundEven_def Let_def)
qed

lemma roundEven_of_int: "roundEven (of_int n) = n"
  by (simp add: roundEven_def)


lemma rnd_nearest:
  assumes "rnd x = Fin y"
  shows "\<bar>y - x\<bar> \<le> pow2 (max (expo x - 52) (- 1074)) / 2"
proof (cases "x = 0")
  case True
  then show ?thesis using assms pow2_pos[of "max (expo x - 52) (- 1074)"] by (simp add: rnd_def)
next
  case False
  define e where "e = max (expo x - 52) (- 1074)"
  define n where "n = roundEven (x / pow2 e)"
  have p: "0 < pow2 e" by (rule pow2_pos)
  have y: "y = of_int n * pow2 e"
    using assms False
    by (auto simp: rnd_def Let_def signed_def e_def n_def split: if_splits)
  have "\<bar>of_int n - x / pow2 e\<bar> \<le> 1 / 2" unfolding n_def by (rule roundEven_nearest)
  then have "\<bar>of_int n - x / pow2 e\<bar> * pow2 e \<le> 1 / 2 * pow2 e"
    using p by (intro mult_right_mono) simp_all
  moreover have "\<bar>of_int n - x / pow2 e\<bar> * pow2 e = \<bar>of_int n * pow2 e - x\<bar>"
    using p by (simp add: abs_mult_pos field_simps)
  ultimately show ?thesis by (simp add: y e_def)
qed

lemma pow2_add: "pow2 (a + b) = pow2 a * pow2 b"
  unfolding pow2_powi by (rule power_int_add) simp

lemma pow2_nat: "0 \<le> d \<Longrightarrow> pow2 d = of_int (2 ^ nat d)"
  by (simp add: pow2_def)

text \<open>A double is its own rounding.\<close>

lemma rnd_double:
  assumes "n \<noteq> 0" and "\<bar>n\<bar> < 2 ^ 53" and "- 1074 \<le> e"
    and "\<bar>of_int n * pow2 e\<bar> < pow2 1024"
  shows "rnd (of_int n * pow2 e) = Fin (of_int n * pow2 e)"
proof -
  define x where "x = of_int n * pow2 e"
  define q where "q = max (expo x - 52) (- 1074)"
  have x0: "x \<noteq> 0" using assms(1) pow2_pos[of e] by (simp add: x_def)
  have "\<bar>real_of_int n\<bar> < 2 ^ 53"
    using assms(2) by (metis of_int_abs of_int_less_iff of_int_numeral of_int_power)
  then have "\<bar>x\<bar> < 2 ^ 53 * pow2 e"
    using pow2_pos[of e] by (simp add: x_def abs_mult)
  also have "\<dots> = pow2 (53 + e)" by (simp add: pow2_add) (simp add: pow2_def)
  finally have "pow2 (expo x) < pow2 (53 + e)" using expo_bounds[OF x0] by simp
  then have "expo x < 53 + e" by (simp only: pow2_less_iff)
  then have qe: "q \<le> e" using assms(3) by (simp add: q_def)
  have "pow2 e = pow2 (e - q) * pow2 q" using pow2_add[of "e - q" q] by simp
  then have "x / pow2 q = of_int n * pow2 (e - q)"
    using pow2_pos[of q] by (simp add: x_def)
  also have "\<dots> = of_int (n * 2 ^ nat (e - q))"
    using qe by (simp add: pow2_nat)
  finally have "roundEven (x / pow2 q) = n * 2 ^ nat (e - q)"
    by (simp only: roundEven_of_int)
  then have "of_int (roundEven (x / pow2 q)) * pow2 q = of_int n * (pow2 (e - q) * pow2 q)"
    using qe by (simp add: pow2_nat)
  also have "\<dots> = x" using pow2_add[of "e - q" q] by (simp add: x_def)
  finally have y: "of_int (roundEven (x / pow2 q)) * pow2 q = x" .
  have "rnd x = Fin x"
    using x0 assms(4) unfolding rnd_def Let_def q_def[symmetric] y
    by (simp add: signed_def x_def)
  then show ?thesis by (simp add: x_def)
qed

text \<open>Evaluating a rounding: the exponent and the significand are given, and checked.\<close>

lemma roundEven_eqI:
  assumes "\<bar>q - of_int n\<bar> < 1 / 2"
  shows "roundEven q = n"
proof (cases "of_int n \<le> q")
  case True
  then have "\<lfloor>q\<rfloor> = n" using assms by (intro floor_unique) linarith+
  then show ?thesis using assms True by (simp add: roundEven_def Let_def)
next
  case False
  then have "\<lfloor>q\<rfloor> = n - 1" using assms by (intro floor_unique) (simp; linarith)+
  then show ?thesis using assms False by (simp add: roundEven_def Let_def)
qed

lemma rnd_eval:
  assumes "pow2 k \<le> \<bar>x\<bar>" and "\<bar>x\<bar> < pow2 (k + 1)" and "- 1022 \<le> k"
    and "\<bar>x / pow2 (k - 52) - of_int n\<bar> < 1 / 2"
    and "y = of_int n * pow2 (k - 52)" and "y \<noteq> 0" and "\<bar>y\<bar> < pow2 1024"
  shows "rnd x = Fin y"
proof -
  have x0: "x \<noteq> 0" using assms(1) pow2_pos[of k] by auto
  have e: "max (expo x - 52) (- 1074) = k - 52"
    using expo_eqI[OF assms(1,2)] assms(3) by simp
  have n: "roundEven (x / pow2 (k - 52)) = n" using assms(4) by (rule roundEven_eqI)
  have sg: "(x < 0) = (y < 0)"
  proof -
    have p: "0 < pow2 (k - 52)" by (rule pow2_pos)
    have "1 \<le> \<bar>x / pow2 (k - 52)\<bar>"
    proof -
      have "pow2 k = pow2 52 * pow2 (k - 52)" using pow2_add[of 52 "k - 52"] by simp
      then have "pow2 52 * pow2 (k - 52) \<le> \<bar>x\<bar>" using assms(1) by simp
      then have "pow2 52 \<le> \<bar>x\<bar> / pow2 (k - 52)" using p by (simp add: field_simps)
      moreover have "(1 :: real) \<le> pow2 52" by (simp add: pow2_def)
      ultimately have "1 \<le> \<bar>x\<bar> / pow2 (k - 52)" by linarith
      moreover have "\<bar>pow2 (k - 52)\<bar> = pow2 (k - 52)" using p by simp
      ultimately show ?thesis by simp
    qed
    then have "(x / pow2 (k - 52) < 0) = (real_of_int n < 0)" using assms(4) by linarith
    then show ?thesis using p by (simp add: assms(5) zero_less_mult_iff mult_less_0_iff field_simps)
  qed
  show ?thesis
    using x0 assms(6,7) unfolding rnd_def Let_def e n assms(5)[symmetric]
    by (simp add: signed_def sg)
qed

lemma rnd_int:
  assumes "n \<noteq> 0" and "\<bar>n\<bar> < 2 ^ 53"
  shows "rnd (of_int n) = Fin (of_int n)"
proof -
  have "\<bar>real_of_int n\<bar> < 2 ^ 53"
    using assms(2) by (metis of_int_abs of_int_less_iff of_int_numeral of_int_power)
  also have "(2 :: real) ^ 53 \<le> 2 ^ 1024" by (rule power_increasing) simp_all
  finally have "\<bar>of_int n * pow2 0\<bar> < pow2 1024" by (simp add: pow2_def)
  then show ?thesis using rnd_double[OF assms(1,2), of 0] by (simp add: pow2_def)
qed


section \<open>Properties of the alert conditions\<close>

lemma triggerMessage_above:
  "alertType a = price_above \<Longrightarrow>
     (triggerMessage a cur = None) = (\<not> js_gt cur (targetValue a))"
  unfolding triggerMessage_def by simp

lemma triggerMessage_below:
  "alertType a = price_below \<Longrightarrow>
     (triggerMessage a cur = None) = (\<not> js_lt cur (targetValue a))"
  unfolding triggerMessage_def by simp

lemma triggerMessage_percent:
  "alertType a = percent_change \<Longrightarrow>
     (triggerMessage a cur = None) =
       (\<not> ((js_gt (targetValue a) (Fin 0) \<and> js_ge (percentChange a cur) (targetValue a)) \<or>
           (js_lt (targetValue a) (Fin 0) \<and> js_le (percentChange a cur) (targetValue a))))"
  unfolding triggerMessage_def by simp

lemma shouldTrigger_above:
  "alertType a = price_above \<Longrightarrow> shouldTrigger a cur = js_gt cur (targetValue a)"
  by (simp add: shouldTrigger_def triggerMessage_above)

lemma shouldTrigger_below:
  "alertType a = price_below \<Longrightarrow> shouldTrigger a cur = js_lt cur (targetValue a)"
  by (simp add: shouldTrigger_def triggerMessage_below)

lemma shouldTrigger_percent:
  "alertType a = percent_change \<Longrightarrow> shouldTrigger a cur =
     ((js_gt (targetValue a) (Fin 0) \<and> js_ge (percentChange a cur) (targetValue a)) \<or>
      (js_lt (targetValue a) (Fin 0) \<and> js_le (percentChange a cur) (targetValue a)))"
  by (simp add: shouldTrigger_def triggerMessage_percent)


text \<open>Arithmetic with a zero: the reference price of an alert may be one.\<close>

lemma js_neg_zero: "is_zero z \<Longrightarrow> js_neg z = (if z = NZero then Fin 0 else NZero)"
  by (auto simp: is_zero_def js_neg_def signed_def)

lemma js_add_zero:
  "is_zero z \<Longrightarrow> js_add c z = (if is_zero c then (if c = NZero \<and> z = NZero then NZero else Fin 0) else c)"
  by (cases c) (auto simp: is_zero_def js_add_def signed_def is_inf_def)

lemma js_sub_zero:
  "is_zero z \<Longrightarrow> js_sub c z = (if is_zero c then (if c = NZero \<and> z = Fin 0 then NZero else Fin 0) else c)"
  by (auto simp: js_sub_def js_neg_zero js_add_zero is_zero_def)

lemma js_div_zero:
  "is_zero z \<Longrightarrow> js_div c z =
     (if c = NaN \<or> is_zero c then NaN else if is_neg c \<noteq> is_neg z then NInf else PInf)"
  by (auto simp: js_div_def is_zero_def is_inf_def)

lemma js_mul_inf_100: "js_mul PInf (Fin 100) = PInf" "js_mul NInf (Fin 100) = NInf" "js_mul NaN b = NaN"
  by (simp_all add: js_mul_def is_inf_def is_zero_def)

lemma percentChange_zero_ref:
  assumes "is_zero (currentPrice a)"
  shows "percentChange a cur =
     (if cur = NaN \<or> is_zero cur then NaN
      else if is_neg cur \<noteq> is_neg (currentPrice a) then NInf else PInf)"
  unfolding percentChange_def js_sub_zero[OF assms] js_div_zero[OF assms]
  by (simp add: js_mul_inf_100 is_zero_def)

lemma js_pos_facts:
  "js_gt t (Fin 0) \<Longrightarrow> js_ge PInf t \<and> \<not> js_ge NInf t \<and> \<not> js_lt t (Fin 0)"
  by (cases t) (simp_all add: js_gt_def js_lt_def js_le_def js_ge_def js_eq_def)

lemma js_neg_facts:
  "js_lt t (Fin 0) \<Longrightarrow> js_le NInf t \<and> \<not> js_le PInf t \<and> \<not> js_gt t (Fin 0)"
  by (cases t) (simp_all add: js_gt_def js_lt_def js_le_def js_ge_def js_eq_def)

lemma js_sign_cmp:
  "c \<noteq> NaN \<Longrightarrow> \<not> is_zero c \<Longrightarrow> js_lt c (Fin 0) = is_neg c"
  "c \<noteq> NaN \<Longrightarrow> \<not> is_zero c \<Longrightarrow> js_gt c (Fin 0) = (\<not> is_neg c)"
  "is_zero c \<Longrightarrow> \<not> js_lt c (Fin 0) \<and> \<not> js_gt c (Fin 0)"
  by (cases c; auto simp: js_gt_def js_lt_def is_zero_def; fail)+

lemma zero_ref_core:
  assumes "cur \<noteq> NaN" "\<not> is_zero cur"
  shows "((js_gt t (Fin 0) \<and> js_ge (if is_neg cur \<noteq> z then NInf else PInf) t) \<or>
          (js_lt t (Fin 0) \<and> js_le (if is_neg cur \<noteq> z then NInf else PInf) t)) =
         ((js_gt t (Fin 0) \<and> (if z then js_lt cur (Fin 0) else js_gt cur (Fin 0))) \<or>
          (js_lt t (Fin 0) \<and> (if z then js_gt cur (Fin 0) else js_lt cur (Fin 0))))"
proof -
  have c1: "js_lt cur (Fin 0) = is_neg cur" and c2: "js_gt cur (Fin 0) = (\<not> is_neg cur)"
    using assms by (simp_all add: js_sign_cmp(1,2))
  show ?thesis
    unfolding c1 c2
    using js_pos_facts[of t] js_neg_facts[of t]
    by (cases "is_neg cur"; cases z; cases "js_gt t (Fin 0)"; cases "js_lt t (Fin 0)"; simp)
qed

text \<open>
  C5. An alert of type \<open>price_above\<close> triggers exactly when the fetched price is strictly
  greater than its target value, an alert of type \<open>price_below\<close> exactly when the fetched
  price is strictly less; with a fetched price equal to the target value neither of the two
  triggers.
\<close>

theorem above_below_strict:
  "(alertType a = price_above \<longrightarrow> shouldTrigger a cur = js_gt cur (targetValue a)) \<and>
   (alertType a = price_below \<longrightarrow> shouldTrigger a cur = js_lt cur (targetValue a)) \<and>
   (alertType a \<noteq> percent_change \<longrightarrow> js_eq cur (targetValue a) \<longrightarrow> \<not> shouldTrigger a cur)"
  using js_eq_not_lt[of cur "targetValue a"]
  by (cases "alertType a") (simp_all add: shouldTrigger_above shouldTrigger_below)

theorem above_below_strict_witness:
  "alertType alertA = price_above \<and> shouldTrigger alertA (Fin 101) \<and>
   js_eq (Fin 100) (targetValue alertA) \<and> \<not> shouldTrigger alertA (Fin 100) \<and>
   alertType (alertA\<lparr>alertType := price_below\<rparr>) = price_below \<and>
   shouldTrigger (alertA\<lparr>alertType := price_below\<rparr>) (Fin 99) \<and>
   \<not> shouldTrigger (alertA\<lparr>alertType := price_below\<rparr>) (Fin 100)"
  using above_below_strict[of alertA "Fin 101"] above_below_strict[of alertA "Fin 100"]
    above_below_strict[of "alertA\<lparr>alertType := price_below\<rparr>" "Fin 99"]
    above_below_strict[of "alertA\<lparr>alertType := price_below\<rparr>" "Fin 100"]
  by (simp add: alertA_def js_cmp_Fin)


text \<open>The percent change of a price, step by step.\<close>

lemma percent_eval:
  assumes "c \<noteq> 0" and "r \<noteq> 0"
    and "rnd (c - r) = Fin s" and "s \<noteq> 0" and "rnd (s / r) = Fin d" and "d \<noteq> 0"
    and "rnd (d * 100) = Fin p"
  shows "js_mul (js_div (js_sub (Fin c) (Fin r)) (Fin r)) (Fin 100) = Fin p"
proof -
  have 1: "js_sub (Fin c) (Fin r) = Fin s"
    using assms(1,2,3) by (simp add: js_sub_def js_neg_def js_add_def signed_def is_inf_def is_zero_def)
  have 2: "js_div (Fin s) (Fin r) = Fin d"
    using assms(2,4,5) by (simp add: js_div_def is_inf_def is_zero_def)
  have 3: "js_mul (Fin d) (Fin 100) = Fin p"
    using assms(6,7) by (simp add: js_mul_def is_inf_def is_zero_def)
  show ?thesis by (simp only: 1 2 3)
qed

lemma round_ints:
  "rnd (44 - 50) = Fin (- 6)" "rnd (46 - 50) = Fin (- 4)"
  "rnd (129 - 100) = Fin 29" "rnd (130 - 100) = Fin 30"
  using rnd_int[of "- 6"] rnd_int[of "- 4"] rnd_int[of 29] rnd_int[of 30] by simp_all

lemma round_examples:
  "rnd (- 6 / 50) = Fin (- 1080863910568919 / 9007199254740992)"
  "rnd (- 1080863910568919 / 9007199254740992 * 100) = Fin (- 12)"
  "rnd (- 4 / 50) = Fin (- 5764607523034235 / 72057594037927936)"
  "rnd (- 5764607523034235 / 72057594037927936 * 100) = Fin (- 8)"
  "rnd (29 / 100) = Fin (5224175567749775 / 18014398509481984)"
  "rnd (5224175567749775 / 18014398509481984 * 100) = Fin (8162774324609023 / 281474976710656)"
  "rnd (30 / 100) = Fin (5404319552844595 / 18014398509481984)"
  "rnd (5404319552844595 / 18014398509481984 * 100) = Fin 30"
  apply (rule rnd_eval[where k = "- 4" and n = "- 8646911284551352"]; simp add: pow2_def)
  apply (rule rnd_eval[where k = 3 and n = "- 6755399441055744"]; simp add: pow2_def)
  apply (rule rnd_eval[where k = "- 4" and n = "- 5764607523034235"]; simp add: pow2_def)
  apply (rule rnd_eval[where k = 3 and n = "- 4503599627370496"]; simp add: pow2_def)
  apply (rule rnd_eval[where k = "- 2" and n = 5224175567749775]; simp add: pow2_def)
  apply (rule rnd_eval[where k = 4 and n = 8162774324609023]; simp add: pow2_def)
  apply (rule rnd_eval[where k = "- 2" and n = 5404319552844595]; simp add: pow2_def)
  apply (rule rnd_eval[where k = 4 and n = 8444249301319680]; simp add: pow2_def)
  done

lemma percentChange_alertB:
  "percentChange alertB (Fin 44) = Fin (- 12)"
  "percentChange alertB (Fin 46) = Fin (- 8)"
proof -
  have r: "currentPrice alertB = Fin 50" by (simp add: alertB_def)
  show "percentChange alertB (Fin 44) = Fin (- 12)"
    unfolding percentChange_def r
    by (rule percent_eval[OF _ _ round_ints(1) _ round_examples(1) _ round_examples(2)]) simp_all
  show "percentChange alertB (Fin 46) = Fin (- 8)"
    unfolding percentChange_def r
    by (rule percent_eval[OF _ _ round_ints(2) _ round_examples(3) _ round_examples(4)]) simp_all
qed



text \<open>
  C3, as the code has it. The conditions hold no test of the reference price. For an alert
  of type \<open>percent_change\<close> whose reference price is a zero, the evaluation raises no error
  and the percent change is an infinity or NaN: the alert triggers exactly when the target
  value is above zero and the fetched price lies on the reference zero's side of zero
  (above zero for the positive zero), or the target value is below zero and the fetched
  price lies on the other side. It does not trigger when the fetched price is a zero or
  NaN, nor when the target value is zero.
\<close>

theorem zero_reference_percent_change:
  assumes "alertType a = percent_change" and "is_zero (currentPrice a)"
  shows "shouldTrigger a cur =
     ((js_gt (targetValue a) (Fin 0) \<and>
         (if currentPrice a = NZero then js_lt cur (Fin 0) else js_gt cur (Fin 0))) \<or>
      (js_lt (targetValue a) (Fin 0) \<and>
         (if currentPrice a = NZero then js_gt cur (Fin 0) else js_lt cur (Fin 0))))"
proof -
  have pc: "percentChange a cur =
     (if cur = NaN \<or> is_zero cur then NaN
      else if is_neg cur \<noteq> is_neg (currentPrice a) then NInf else PInf)"
    by (rule percentChange_zero_ref[OF assms(2)])
  have ref: "is_neg (currentPrice a) = (currentPrice a = NZero)"
    using assms(2) by (auto simp: is_zero_def)
  consider (nan) "cur = NaN" | (zero) "is_zero cur" | (other) "cur \<noteq> NaN" "\<not> is_zero cur"
    by blast
  then show ?thesis
  proof cases
    case nan
    have "percentChange a cur = NaN" unfolding pc using nan by simp
    then show ?thesis
      unfolding shouldTrigger_percent[OF assms(1)]
      by (simp add: nan js_lt_def js_gt_def js_le_def js_ge_def js_eq_def)
  next
    case zero
    have "percentChange a cur = NaN" unfolding pc using zero by simp
    then show ?thesis
      unfolding shouldTrigger_percent[OF assms(1)]
      using js_sign_cmp(3)[OF zero]
      by (simp add: js_le_def js_ge_def js_eq_def js_lt_def[of NaN] js_lt_def[of _ NaN])
  next
    case other
    have "percentChange a cur =
        (if is_neg cur \<noteq> (currentPrice a = NZero) then NInf else PInf)"
      unfolding pc ref using other by simp
    then show ?thesis
      unfolding shouldTrigger_percent[OF assms(1)]
      using zero_ref_core[OF other, of "targetValue a" "currentPrice a = NZero"] by simp
  qed
qed

theorem zero_reference_percent_change_witness:
  "alertType alertZ = percent_change \<and> is_zero (currentPrice alertZ) \<and>
   shouldTrigger alertZ (Fin 1) \<and> \<not> shouldTrigger alertZ (Fin 0) \<and>
   \<not> shouldTrigger alertZ (Fin (-1)) \<and> \<not> shouldTrigger alertZ NaN \<and>
   is_zero (currentPrice (alertZ\<lparr>currentPrice := NZero\<rparr>)) \<and>
   shouldTrigger (alertZ\<lparr>currentPrice := NZero\<rparr>) (Fin (-1)) \<and>
   \<not> shouldTrigger (alertZ\<lparr>currentPrice := NZero\<rparr>) (Fin 1)"
  using zero_reference_percent_change[of alertZ "Fin 1"]
    zero_reference_percent_change[of alertZ "Fin 0"]
    zero_reference_percent_change[of alertZ "Fin (-1)"]
    zero_reference_percent_change[of alertZ NaN]
    zero_reference_percent_change[of "alertZ\<lparr>currentPrice := NZero\<rparr>" "Fin (-1)"]
    zero_reference_percent_change[of "alertZ\<lparr>currentPrice := NZero\<rparr>" "Fin 1"]
  by (simp add: alertZ_def is_zero_def js_cmp_Fin js_NaN_cmp)

text \<open>The claim C3 as it was stated fails: the alert \<open>alertZ\<close> has type \<open>percent_change\<close>,
  reference price zero and target value 5, and a fetched price of 1 triggers it.\<close>

theorem zero_reference_triggers:
  "alertType alertZ = percent_change \<and> currentPrice alertZ = Fin 0 \<and>
   percentChange alertZ (Fin 1) = PInf \<and> shouldTrigger alertZ (Fin 1)"
proof -
  have t: "alertType alertZ = percent_change" and r: "currentPrice alertZ = Fin 0"
    and v: "targetValue alertZ = Fin 5"
    by (simp_all add: alertZ_def)
  have p: "percentChange alertZ (Fin 1) = PInf"
    by (simp add: percentChange_def r js_sub_def js_add_def js_neg_def js_div_def js_mul_def
        signed_def is_inf_def is_zero_def)
  have "shouldTrigger alertZ (Fin 1)"
    by (simp add: shouldTrigger_percent[OF t] p v js_gt_def js_ge_def js_le_def js_lt_def
        js_eq_def)
  with t r p show ?thesis by simp
qed

section \<open>Properties of the store and the cycle\<close>

lemma console_simps [simp]:
  "storage (console l w) = storage w" "lookups (console l w) = lookups w"
  "sends (console l w) = sends w" "logs (console l w) = logs w @ [l]"
  "replies (console l w) = replies w"
  by (simp_all add: console_def)

lemma reply_simps [simp]:
  "storage (reply t w) = storage w" "lookups (reply t w) = lookups w"
  "sends (reply t w) = sends w" "logs (reply t w) = logs w"
  "replies (reply t w) = replies w @ [t]"
  by (simp_all add: reply_def)

lemma removeAlert_fst: "fst (removeAlert w i) = None"
  by (simp add: removeAlert_def split: option.splits)

lemma removeAlert_snd:
  "storage (snd (removeAlert w i)) = map_option (AList.delete i) (storage w)"
  "lookups (snd (removeAlert w i)) = lookups w"
  "sends (snd (removeAlert w i)) = sends w"
  "replies (snd (removeAlert w i)) = replies w"
  "logs (snd (removeAlert w i)) = logs w @ (case storage w of None \<Rightarrow> [] | Some m \<Rightarrow> [LogRemoved i])"
  by (simp_all add: removeAlert_def split: option.splits)

lemma without_empty: "without {} m = m"
  by (simp add: without_def)

lemma without_single: "without {i} m = AList.delete i m"
  by (induction m) (auto simp: without_def)

lemma without_without: "without R2 (without R1 m) = without (R1 \<union> R2) m"
  by (induction m) (auto simp: without_def)

lemma map_of_without: "map_of (without R m) k = (if k \<in> R then None else map_of m k)"
  by (induction m) (auto simp: without_def)

lemma set_without: "set (without R m) \<subseteq> set m"
  by (auto simp: without_def)

lemma ids_append:
  "triggeredIds (L1 @ L2) = triggeredIds L1 \<union> triggeredIds L2"
  "undeliveredIds (L1 @ L2) = undeliveredIds L1 \<union> undeliveredIds L2"
  by (auto simp: triggeredIds_def undeliveredIds_def)

lemma ids_Nil: "triggeredIds [] = {}" "undeliveredIds [] = {}" "verdicts [] = []"
  by (simp_all add: triggeredIds_def undeliveredIds_def verdicts_def)

lemma verdicts_append: "verdicts (L1 @ L2) = verdicts L1 @ verdicts L2"
  by (simp add: verdicts_def)

lemma effect_refl: "effect w w []"
  by (simp add: effect_def ids_Nil without_empty option.map_ident cong: option.map_cong)

lemma effect_trans:
  assumes "effect w w' L1" and "effect w' w'' L2"
  shows "effect w w'' (L1 @ L2)"
proof -
  obtain S1 where S1: "sends w' = sends w @ S1" "map (\<lambda>s. snd (snd s)) S1 = verdicts L1"
    using assms(1) by (auto simp: effect_def)
  obtain S2 where S2: "sends w'' = sends w' @ S2" "map (\<lambda>s. snd (snd s)) S2 = verdicts L2"
    using assms(2) by (auto simp: effect_def)
  have "sends w'' = sends w @ (S1 @ S2) \<and> map (\<lambda>s. snd (snd s)) (S1 @ S2) = verdicts (L1 @ L2)"
    using S1 S2 by (simp add: verdicts_append)
  then have "\<exists>S. sends w'' = sends w @ S \<and> map (\<lambda>s. snd (snd s)) S = verdicts (L1 @ L2)"
    by blast
  moreover have "logs w'' = logs w @ L1 @ L2" "replies w'' = replies w"
    "storage w'' = map_option (without (triggeredIds (L1 @ L2))) (storage w)"
    using assms by (cases "storage w"; simp add: effect_def ids_append without_without)+
  ultimately show ?thesis by (simp add: effect_def)
qed

text \<open>One alert.\<close>

lemma processAlert_quiet:
  "\<not> shouldTrigger a p \<Longrightarrow> processAlert e pd p w a = w"
  by (simp add: processAlert_def shouldTrigger_def)

lemma processAlert_lookups: "lookups (processAlert e pd p w a) = lookups w"
  by (simp add: processAlert_def Let_def removeAlert_snd split: option.splits)

lemma processAlert_effect:
  "\<exists>L. effect w (processAlert e pd p w a) L \<and>
       triggeredIds L \<union> undeliveredIds L = (if shouldTrigger a p then {alert_id a} else {}) \<and>
       triggeredIds L \<inter> undeliveredIds L = {} \<and>
       ((\<forall>n c t. \<not> sendMessage e n c t) \<longrightarrow> triggeredIds L = {}) \<and>
       ((\<forall>n c t. sendMessage e n c t) \<longrightarrow> undeliveredIds L = {})"
proof (cases "triggerMessage a p")
  case None
  then have "processAlert e pd p w a = w" "\<not> shouldTrigger a p"
    by (simp_all add: processAlert_def shouldTrigger_def)
  then show ?thesis
    using effect_refl[of w] by (intro exI[of _ "[]"]) (simp add: ids_Nil)
next
  case (Some msg)
  then have due: "shouldTrigger a p" by (simp add: shouldTrigger_def)
  define body where "body = msg @ additionalInfo pd @ [NL, NL, Lit ''Chain: '', Upper (chainId a)]"
  define delivered where "delivered = sendMessage e (length (sends w)) (chatId a) body"
  show ?thesis
  proof (cases delivered)
    case True
    define L where "L = (case storage w of None \<Rightarrow> [] | Some m \<Rightarrow> [LogRemoved (alert_id a)]) @ [LogTriggered (alert_id a)]"
    have t: "triggeredIds L = {alert_id a}" and u: "undeliveredIds L = {}"
      and v: "verdicts L = [True]"
      by (auto simp: L_def triggeredIds_def undeliveredIds_def verdicts_def split: option.splits)
    have "effect w (processAlert e pd p w a) L"
      using True Some unfolding delivered_def body_def
      by (cases "storage w")
        (simp_all add: effect_def processAlert_def Let_def removeAlert_snd t v without_single, simp_all add: L_def)
    moreover have "\<not> (\<forall>n c t. \<not> sendMessage e n c t)"
      using True unfolding delivered_def by blast
    ultimately show ?thesis
      using due t u by (intro exI[of _ L]) simp
  next
    case False
    define L where "L = [LogDeliveryFailed (alert_id a)]"
    have t: "triggeredIds L = {}" and u: "undeliveredIds L = {alert_id a}"
      and v: "verdicts L = [False]"
      by (auto simp: L_def triggeredIds_def undeliveredIds_def verdicts_def)
    have "effect w (processAlert e pd p w a) L"
      using False Some unfolding delivered_def body_def
      by (cases "storage w")
        (simp_all add: effect_def processAlert_def Let_def t v without_empty, simp_all add: L_def)
    moreover have "\<not> (\<forall>n c t. sendMessage e n c t)"
      using False unfolding delivered_def by blast
    ultimately show ?thesis
      using due t u by (intro exI[of _ L]) simp
  qed
qed

text \<open>The store as \<^verbatim>\<open>addAlert\<close> builds it keeps its form.\<close>

lemma store_ok_Nil: "store_ok []"
  by (simp add: store_ok_def)

lemma store_ok_update:
  assumes "store_ok m"
  shows "store_ok (AList.update (alert_id a) a m)"
proof -
  have "list_all (\<lambda>(k, alert). alert_id alert = k) (AList.update (alert_id a) a m)"
    if "list_all (\<lambda>(k, alert). alert_id alert = k) m" for m :: alertsMap
    using that by (induction m) auto
  then show ?thesis
    using assms by (simp add: store_ok_def distinct_update)
qed

lemma store_ok_without: "store_ok m \<Longrightarrow> store_ok (without R m)"
  by (induction m) (auto simp: store_ok_def without_def)

lemma addAlert_store_ok:
  assumes "storage w = None \<or> (\<exists>m. storage w = Some m \<and> store_ok m)"
  shows "\<exists>m'. storage (addAlert w a) = Some m' \<and> store_ok m' \<and> map_of m' (alert_id a) = Some a"
  using assms store_ok_update[of _ a] store_ok_update[OF store_ok_Nil, of a]
  by (auto simp: addAlert_def Let_def update_conv')

text \<open>The ways a lookup fails.\<close>

lemma fetched_None_iff:
  "fetched e k = None \<longleftrightarrow>
     fetch e k = FetchThrows \<or>
     (\<exists>r. fetch e k = Resolved r \<and>
        (\<not> ok r \<or> json r = JsonThrows \<or>
         (\<exists>d. json r = Json d \<and> (pairs d = None \<or> pairs d = Some []))))"
  by (auto simp: fetched_def split: fetch_result.splits json_result.splits option.splits list.splits)

text \<open>The two ends of a send, for one alert.\<close>

lemma processAlert_send_throws:
  assumes "triggerMessage a p = Some msg"
    and "\<not> sendMessage e (length (sends w)) (chatId a)
            (msg @ additionalInfo pd @ [NL, NL, Lit ''Chain: '', Upper (chainId a)])"
  shows "storage (processAlert e pd p w a) = storage w \<and>
         logs (processAlert e pd p w a) = logs w @ [LogDeliveryFailed (alert_id a)]"
  using assms by (simp add: processAlert_def Let_def)

lemma processAlert_send_resolves:
  assumes "triggerMessage a p = Some msg"
    and "sendMessage e (length (sends w)) (chatId a)
            (msg @ additionalInfo pd @ [NL, NL, Lit ''Chain: '', Upper (chainId a)])"
  shows "storage (processAlert e pd p w a) = map_option (AList.delete (alert_id a)) (storage w)"
  using assms by (simp add: processAlert_def Let_def removeAlert_snd)

text \<open>The alerts of one pair.\<close>

lemma foldl_processAlert_lookups: "lookups (foldl (processAlert e pd p) w as) = lookups w"
  by (induction as arbitrary: w) (simp_all add: processAlert_lookups)

lemma foldl_processAlert_effect:
  "\<exists>L. effect w (foldl (processAlert e pd p) w as) L \<and>
       triggeredIds L \<union> undeliveredIds L = alert_id ` {a \<in> set as. shouldTrigger a p} \<and>
       (distinct (map alert_id as) \<longrightarrow> triggeredIds L \<inter> undeliveredIds L = {}) \<and>
       ((\<forall>n c t. \<not> sendMessage e n c t) \<longrightarrow> triggeredIds L = {}) \<and>
       ((\<forall>n c t. sendMessage e n c t) \<longrightarrow> undeliveredIds L = {})"
proof (induction as arbitrary: w)
  case Nil
  show ?case using effect_refl[of w] by (intro exI[of _ "[]"]) (simp add: ids_Nil)
next
  case (Cons a as)
  obtain L1 where 1: "effect w (processAlert e pd p w a) L1"
    and u1: "triggeredIds L1 \<union> undeliveredIds L1 = (if shouldTrigger a p then {alert_id a} else {})"
    and d1: "triggeredIds L1 \<inter> undeliveredIds L1 = {}"
    and f1: "(\<forall>n c t. \<not> sendMessage e n c t) \<longrightarrow> triggeredIds L1 = {}"
    and s1: "(\<forall>n c t. sendMessage e n c t) \<longrightarrow> undeliveredIds L1 = {}"
    using processAlert_effect[of w e pd p a] by blast
  obtain L2 where 2: "effect (processAlert e pd p w a) (foldl (processAlert e pd p) (processAlert e pd p w a) as) L2"
    and u2: "triggeredIds L2 \<union> undeliveredIds L2 = alert_id ` {a \<in> set as. shouldTrigger a p}"
    and d2: "distinct (map alert_id as) \<longrightarrow> triggeredIds L2 \<inter> undeliveredIds L2 = {}"
    and f2: "(\<forall>n c t. \<not> sendMessage e n c t) \<longrightarrow> triggeredIds L2 = {}"
    and s2: "(\<forall>n c t. sendMessage e n c t) \<longrightarrow> undeliveredIds L2 = {}"
    using Cons.IH[of "processAlert e pd p w a"] by blast
  have eff: "effect w (foldl (processAlert e pd p) w (a # as)) (L1 @ L2)"
    using effect_trans[OF 1 2] by simp
  have un: "triggeredIds (L1 @ L2) \<union> undeliveredIds (L1 @ L2) =
      alert_id ` {x \<in> set (a # as). shouldTrigger x p}"
  proof -
    have "triggeredIds (L1 @ L2) \<union> undeliveredIds (L1 @ L2) =
        (triggeredIds L1 \<union> undeliveredIds L1) \<union> (triggeredIds L2 \<union> undeliveredIds L2)"
      by (auto simp: ids_append)
    also have "\<dots> = (if shouldTrigger a p then {alert_id a} else {}) \<union>
        alert_id ` {a \<in> set as. shouldTrigger a p}"
      by (simp only: u1 u2)
    also have "\<dots> = alert_id ` {x \<in> set (a # as). shouldTrigger x p}"
      by auto
    finally show ?thesis .
  qed
  have dis: "triggeredIds (L1 @ L2) \<inter> undeliveredIds (L1 @ L2) = {}"
    if "distinct (map alert_id (a # as))"
  proof -
    have na: "alert_id a \<notin> alert_id ` set as" and das: "distinct (map alert_id as)"
      using that by auto
    have sub1: "triggeredIds L1 \<union> undeliveredIds L1 \<subseteq> {alert_id a}"
      using u1 by (auto split: if_splits)
    have sub2: "triggeredIds L2 \<union> undeliveredIds L2 \<subseteq> alert_id ` set as"
      using u2 by auto
    have "triggeredIds L2 \<inter> undeliveredIds L2 = {}" using d2 das by simp
    with d1 sub1 sub2 na show ?thesis
      by (simp add: ids_append) blast
  qed
  show ?case
    using eff un dis f1 f2 s1 s2
    by (intro exI[of _ "L1 @ L2"]) (simp add: ids_append)
qed

text \<open>One pair.\<close>

lemma checkPair_failed:
  assumes "fetched e k = None"
  shows "\<exists>l. checkPair e w (k, as) = console l (w\<lparr>lookups := lookups w @ [k]\<rparr>) \<and>
             (l = LogPairError k \<or> (\<exists>s. l = LogHttpFailed k s) \<or> l = LogNoMarketData k)"
  using assms
  by (auto simp: checkPair_def fetched_def Let_def
      split: fetch_result.splits json_result.splits option.splits list.splits if_splits)

lemma checkPair_fetched:
  assumes "fetched e k = Some pd"
  shows "checkPair e w (k, as) =
           foldl (processAlert e pd (priceUsd pd)) (w\<lparr>lookups := lookups w @ [k]\<rparr>) as"
  using assms
  by (auto simp: checkPair_def fetched_def Let_def
      split: fetch_result.splits json_result.splits option.splits list.splits if_splits)

lemma checkPair_lookups: "lookups (checkPair e w (k, as)) = lookups w @ [k]"
proof (cases "fetched e k")
  case None
  then show ?thesis using checkPair_failed[OF None, of w as] by auto
next
  case (Some pd)
  then show ?thesis by (simp add: checkPair_fetched foldl_processAlert_lookups)
qed

lemma effect_lookups: "effect (w\<lparr>lookups := x\<rparr>) w' L = effect w w' L"
  by (simp add: effect_def)

lemma checkPair_effect:
  assumes "\<forall>a \<in> set as. pairAddress a = k"
  shows "\<exists>L. effect w (checkPair e w (k, as)) L \<and>
       triggeredIds L \<union> undeliveredIds L = alert_id ` {a \<in> set as. isDue e a} \<and>
       (distinct (map alert_id as) \<longrightarrow> triggeredIds L \<inter> undeliveredIds L = {}) \<and>
       ((\<forall>n c t. \<not> sendMessage e n c t) \<longrightarrow> triggeredIds L = {}) \<and>
       ((\<forall>n c t. sendMessage e n c t) \<longrightarrow> undeliveredIds L = {})"
proof (cases "fetched e k")
  case None
  obtain l where l: "checkPair e w (k, as) = console l (w\<lparr>lookups := lookups w @ [k]\<rparr>)"
    and kind: "l = LogPairError k \<or> (\<exists>s. l = LogHttpFailed k s) \<or> l = LogNoMarketData k"
    using checkPair_failed[OF None, of w as] by blast
  have ids: "triggeredIds [l] = {}" "undeliveredIds [l] = {}" "verdicts [l] = []"
    using kind by (auto simp: triggeredIds_def undeliveredIds_def verdicts_def)
  have "effect w (checkPair e w (k, as)) [l]"
    by (cases "storage w") (simp_all add: effect_def l ids without_empty)
  moreover have "{a \<in> set as. isDue e a} = {}"
    using assms None by (auto simp: isDue_def)
  ultimately show ?thesis
    using ids by (intro exI[of _ "[l]"]) simp
next
  case (Some pd)
  have due: "{a \<in> set as. isDue e a} = {a \<in> set as. shouldTrigger a (priceUsd pd)}"
    using assms Some by (auto simp: isDue_def)
  show ?thesis
    unfolding checkPair_fetched[OF Some] due
    using foldl_processAlert_effect[of "w\<lparr>lookups := lookups w @ [k]\<rparr>" e pd "priceUsd pd" as]
    by (simp add: effect_lookups)
qed

text \<open>Batching.\<close>

lemma groupStep_map_of:
  "map_of (groupStep pm a) k =
     (if k = pairAddress a then Some ((case map_of pm k of None \<Rightarrow> [] | Some x \<Rightarrow> x) @ [a])
      else map_of pm k)"
  by (simp add: groupStep_def Let_def update_conv')

lemma groupStep_distinct: "distinct (map fst pm) \<Longrightarrow> distinct (map fst (groupStep pm a))"
  by (simp add: groupStep_def Let_def distinct_update)

lemma groupByPair_inv:
  "distinct (map fst (groupByPair xs)) \<and>
   (\<forall>k. map_of (groupByPair xs) k =
      (if k \<in> pairAddress ` set xs then Some (filter (\<lambda>a. pairAddress a = k) xs) else None))"
proof (induction xs rule: rev_induct)
  case Nil
  show ?case by (simp add: groupByPair_def)
next
  case (snoc x xs)
  have step: "groupByPair (xs @ [x]) = groupStep (groupByPair xs) x"
    by (simp add: groupByPair_def)
  have none: "filter (\<lambda>a. pairAddress a = pairAddress x) xs = []"
    if "pairAddress x \<notin> pairAddress ` set xs"
    using that by (simp add: filter_empty_conv image_iff) metis
  show ?case
    using snoc none by (auto simp: step groupStep_map_of groupStep_distinct)
qed

lemma groupByPair_distinct: "distinct (map fst (groupByPair xs))"
  using groupByPair_inv[of xs] by simp

lemma groupByPair_keys: "set (map fst (groupByPair xs)) = pairAddress ` set xs"
proof -
  have "k \<in> fst ` set (groupByPair xs) \<longleftrightarrow> k \<in> pairAddress ` set xs" for k
    using groupByPair_inv[of xs] by (metis map_of_eq_None_iff option.distinct(1))
  then show ?thesis by auto
qed

lemma groupByPair_group:
  assumes "(k, as) \<in> set (groupByPair xs)"
  shows "as = filter (\<lambda>a. pairAddress a = k) xs"
proof -
  have "map_of (groupByPair xs) k = Some as"
    using assms groupByPair_inv[of xs] map_of_eq_Some_iff[of "groupByPair xs" k as] by blast
  then show ?thesis using groupByPair_inv[of xs] by (auto split: if_splits)
qed

text \<open>All pairs.\<close>

lemma foldl_checkPair_lookups: "lookups (foldl (checkPair e) w gs) = lookups w @ map fst gs"
proof (induction gs arbitrary: w)
  case Nil
  show ?case by simp
next
  case (Cons g gs)
  obtain k as where g: "g = (k, as)" by (cases g)
  show ?case by (simp add: g Cons.IH checkPair_lookups)
qed

lemma foldl_checkPair_effect:
  assumes "distinct (map fst gs)"
    and "\<forall>(k, as) \<in> set gs. as = filter (\<lambda>a. pairAddress a = k) xs"
  shows "\<exists>L. effect w (foldl (checkPair e) w gs) L \<and>
       triggeredIds L \<union> undeliveredIds L =
         alert_id ` {a \<in> set xs. pairAddress a \<in> fst ` set gs \<and> isDue e a} \<and>
       (distinct (map alert_id xs) \<longrightarrow> triggeredIds L \<inter> undeliveredIds L = {}) \<and>
       ((\<forall>n c t. \<not> sendMessage e n c t) \<longrightarrow> triggeredIds L = {}) \<and>
       ((\<forall>n c t. sendMessage e n c t) \<longrightarrow> undeliveredIds L = {})"
  using assms
proof (induction gs arbitrary: w)
  case Nil
  show ?case using effect_refl[of w] by (intro exI[of _ "[]"]) (simp add: ids_Nil)
next
  case (Cons g gs)
  obtain k as where g: "g = (k, as)" by (cases g)
  have as: "as = filter (\<lambda>a. pairAddress a = k) xs" and knew: "k \<notin> fst ` set gs"
    using Cons.prems by (auto simp: g)
  have same: "\<forall>a \<in> set as. pairAddress a = k" using as by simp
  obtain L1 where 1: "effect w (checkPair e w (k, as)) L1"
    and u1: "triggeredIds L1 \<union> undeliveredIds L1 = alert_id ` {a \<in> set as. isDue e a}"
    and d1: "distinct (map alert_id as) \<longrightarrow> triggeredIds L1 \<inter> undeliveredIds L1 = {}"
    and f1: "(\<forall>n c t. \<not> sendMessage e n c t) \<longrightarrow> triggeredIds L1 = {}"
    and s1: "(\<forall>n c t. sendMessage e n c t) \<longrightarrow> undeliveredIds L1 = {}"
    using checkPair_effect[OF same, of w e] by blast
  obtain L2 where 2: "effect (checkPair e w (k, as)) (foldl (checkPair e) (checkPair e w (k, as)) gs) L2"
    and u2: "triggeredIds L2 \<union> undeliveredIds L2 =
        alert_id ` {a \<in> set xs. pairAddress a \<in> fst ` set gs \<and> isDue e a}"
    and d2: "distinct (map alert_id xs) \<longrightarrow> triggeredIds L2 \<inter> undeliveredIds L2 = {}"
    and f2: "(\<forall>n c t. \<not> sendMessage e n c t) \<longrightarrow> triggeredIds L2 = {}"
    and s2: "(\<forall>n c t. sendMessage e n c t) \<longrightarrow> undeliveredIds L2 = {}"
    using Cons.IH[of "checkPair e w (k, as)"] Cons.prems by auto
  have eff: "effect w (foldl (checkPair e) w (g # gs)) (L1 @ L2)"
    using effect_trans[OF 1 2] by (simp add: g)
  have u1': "triggeredIds L1 \<union> undeliveredIds L1 =
      alert_id ` {a \<in> set xs. pairAddress a = k \<and> isDue e a}"
    unfolding u1 as by (rule arg_cong[where f = "\<lambda>S. alert_id ` S"]) auto
  have un: "triggeredIds (L1 @ L2) \<union> undeliveredIds (L1 @ L2) =
      alert_id ` {a \<in> set xs. pairAddress a \<in> fst ` set (g # gs) \<and> isDue e a}"
  proof -
    have "triggeredIds (L1 @ L2) \<union> undeliveredIds (L1 @ L2) =
        (triggeredIds L1 \<union> undeliveredIds L1) \<union> (triggeredIds L2 \<union> undeliveredIds L2)"
      by (auto simp: ids_append)
    also have "\<dots> = alert_id ` {a \<in> set xs. pairAddress a = k \<and> isDue e a} \<union>
        alert_id ` {a \<in> set xs. pairAddress a \<in> fst ` set gs \<and> isDue e a}"
      by (simp only: u1' u2)
    also have "\<dots> = alert_id ` {a \<in> set xs. pairAddress a \<in> fst ` set (g # gs) \<and> isDue e a}"
      by (auto simp: g)
    finally show ?thesis .
  qed
  have dis: "triggeredIds (L1 @ L2) \<inter> undeliveredIds (L1 @ L2) = {}"
    if dx: "distinct (map alert_id xs)"
  proof -
    have inj: "inj_on alert_id (set xs)" using dx by (simp add: distinct_map)
    have "distinct (map alert_id as)" unfolding as using dx by (simp add: distinct_map_filter)
    then have e1: "triggeredIds L1 \<inter> undeliveredIds L1 = {}" using d1 by simp
    have e2: "triggeredIds L2 \<inter> undeliveredIds L2 = {}" using d2 dx by simp
    have apart: "(triggeredIds L1 \<union> undeliveredIds L1) \<inter> (triggeredIds L2 \<union> undeliveredIds L2) = {}"
    proof (rule ccontr)
      assume "\<not> ?thesis"
      then obtain i where i1: "i \<in> triggeredIds L1 \<union> undeliveredIds L1"
        and i2: "i \<in> triggeredIds L2 \<union> undeliveredIds L2" by blast
      obtain a where a: "a \<in> set xs" "pairAddress a = k" "alert_id a = i"
        using i1 unfolding u1' by auto
      obtain b where b: "b \<in> set xs" "pairAddress b \<in> fst ` set gs" "alert_id b = i"
        using i2 unfolding u2 by auto
      have "a = b" using inj a(1,3) b(1,3) by (auto dest: inj_onD)
      with a(2) b(2) knew show False by simp
    qed
    show ?thesis using e1 e2 apart by (simp add: ids_append) blast
  qed
  show ?case
    using eff un dis f1 f2 s1 s2
    by (intro exI[of _ "L1 @ L2"]) (simp add: ids_append)
qed

text \<open>The cycle.\<close>

lemma checkAlerts_effect:
  "\<exists>L. effect w (checkAlerts e w) L \<and>
       triggeredIds L \<union> undeliveredIds L = alert_id ` {a \<in> set (getAllAlerts w). isDue e a} \<and>
       (distinct (map alert_id (getAllAlerts w)) \<longrightarrow> triggeredIds L \<inter> undeliveredIds L = {}) \<and>
       ((\<forall>n c t. \<not> sendMessage e n c t) \<longrightarrow> triggeredIds L = {}) \<and>
       ((\<forall>n c t. sendMessage e n c t) \<longrightarrow> undeliveredIds L = {})"
proof (cases "getAllAlerts w = []")
  case True
  have "effect w (checkAlerts e w) [LogNoActive]"
    by (cases "storage w")
      (simp_all add: checkAlerts_def True effect_def triggeredIds_def verdicts_def without_empty)
  then show ?thesis
    using True by (intro exI[of _ "[LogNoActive]"]) (simp add: triggeredIds_def undeliveredIds_def)
next
  case False
  define xs where "xs = getAllAlerts w"
  define w1 where "w1 = console (LogInitiating (length xs)) w"
  define w2 where "w2 = foldl (checkPair e) w1 (groupByPair xs)"
  have ca: "checkAlerts e w = console LogCycleCompleted w2"
    using False by (simp add: checkAlerts_def Let_def w2_def w1_def xs_def)
  have groups: "\<forall>(k, as) \<in> set (groupByPair xs). as = filter (\<lambda>a. pairAddress a = k) xs"
    using groupByPair_group by blast
  obtain L where 2: "effect w1 w2 L"
    and u: "triggeredIds L \<union> undeliveredIds L =
        alert_id ` {a \<in> set xs. pairAddress a \<in> fst ` set (groupByPair xs) \<and> isDue e a}"
    and d: "distinct (map alert_id xs) \<longrightarrow> triggeredIds L \<inter> undeliveredIds L = {}"
    and f: "(\<forall>n c t. \<not> sendMessage e n c t) \<longrightarrow> triggeredIds L = {}"
    and s: "(\<forall>n c t. sendMessage e n c t) \<longrightarrow> undeliveredIds L = {}"
    using foldl_checkPair_effect[OF groupByPair_distinct groups, of w1 e] unfolding w2_def by blast
  define L' where "L' = [LogInitiating (length xs)] @ L @ [LogCycleCompleted]"
  have t': "triggeredIds L' = triggeredIds L" and u': "undeliveredIds L' = undeliveredIds L"
    and v': "verdicts L' = verdicts L"
    by (auto simp: L'_def triggeredIds_def undeliveredIds_def verdicts_def)
  have "effect w (checkAlerts e w) L'"
    using 2 by (cases "storage w") (simp_all add: effect_def ca w1_def t' v', simp_all add: L'_def)
  moreover have "{a \<in> set xs. pairAddress a \<in> fst ` set (groupByPair xs) \<and> isDue e a} =
      {a \<in> set xs. isDue e a}"
    using groupByPair_keys[of xs] by auto
  ultimately show ?thesis
    using u d f s unfolding xs_def[symmetric]
    by (intro exI[of _ L']) (simp add: t' u')
qed

lemma cycle_effect: "effect w (checkAlerts e w) (cycleLog e w)"
proof -
  obtain L where L: "effect w (checkAlerts e w) L" using checkAlerts_effect[of w e] by blast
  then have "cycleLog e w = L" by (simp add: cycleLog_def effect_def)
  with L show ?thesis by simp
qed

lemma cycle_ids:
  "triggeredIds (cycleLog e w) \<union> undeliveredIds (cycleLog e w) =
     alert_id ` {a \<in> set (getAllAlerts w). isDue e a}"
  "distinct (map alert_id (getAllAlerts w)) \<Longrightarrow>
     triggeredIds (cycleLog e w) \<inter> undeliveredIds (cycleLog e w) = {}"
  "\<forall>n c t. \<not> sendMessage e n c t \<Longrightarrow> triggeredIds (cycleLog e w) = {}"
  "\<forall>n c t. sendMessage e n c t \<Longrightarrow> undeliveredIds (cycleLog e w) = {}"
proof -
  obtain L where L: "effect w (checkAlerts e w) L"
    and rest: "triggeredIds L \<union> undeliveredIds L = alert_id ` {a \<in> set (getAllAlerts w). isDue e a}"
      "distinct (map alert_id (getAllAlerts w)) \<longrightarrow> triggeredIds L \<inter> undeliveredIds L = {}"
      "(\<forall>n c t. \<not> sendMessage e n c t) \<longrightarrow> triggeredIds L = {}"
      "(\<forall>n c t. sendMessage e n c t) \<longrightarrow> undeliveredIds L = {}"
    using checkAlerts_effect[of w e] by blast
  have eq: "cycleLog e w = L" using L by (simp add: cycleLog_def effect_def)
  show "triggeredIds (cycleLog e w) \<union> undeliveredIds (cycleLog e w) =
     alert_id ` {a \<in> set (getAllAlerts w). isDue e a}"
    using rest(1) by (simp add: eq)
  show "distinct (map alert_id (getAllAlerts w)) \<Longrightarrow>
     triggeredIds (cycleLog e w) \<inter> undeliveredIds (cycleLog e w) = {}"
    using rest(2) by (simp add: eq)
  show "\<forall>n c t. \<not> sendMessage e n c t \<Longrightarrow> triggeredIds (cycleLog e w) = {}"
    using rest(3) by (simp add: eq)
  show "\<forall>n c t. sendMessage e n c t \<Longrightarrow> undeliveredIds (cycleLog e w) = {}"
    using rest(4) by (simp add: eq)
qed


lemma cycle_stored:
  "storedAlert (checkAlerts e w) i =
     (if i \<in> triggeredIds (cycleLog e w) then None else storedAlert w i)"
  using cycle_effect[of w e]
  by (cases "storage w") (simp_all add: effect_def storedAlert_def map_of_without)

lemma cycleLookups_eq: "cycleLookups e w = map fst (groupByPair (getAllAlerts w))"
  by (simp add: cycleLookups_def checkAlerts_def Let_def foldl_checkPair_lookups groupByPair_def)

text \<open>The store as \<open>addAlert\<close> builds it.\<close>

lemma store_ok_ids:
  assumes "storage w = Some m" and "store_ok m"
  shows "distinct (map alert_id (getAllAlerts w))"
    and "(i, a) \<in> set m \<Longrightarrow> alert_id a = i \<and> storedAlert w i = Some a \<and> a \<in> set (getAllAlerts w)"
proof -
  have ids: "map alert_id (map snd m) = map fst m"
    using assms(2) by (induction m) (auto simp: store_ok_def)
  have "distinct (map alert_id (map snd m))"
    unfolding ids using assms(2) by (simp add: store_ok_def)
  then show "distinct (map alert_id (getAllAlerts w))"
    using assms(1) by (simp add: getAllAlerts_def)
  show "alert_id a = i \<and> storedAlert w i = Some a \<and> a \<in> set (getAllAlerts w)" if "(i, a) \<in> set m"
  proof -
    have "alert_id a = i" using assms(2) that by (auto simp: store_ok_def list_all_iff)
    moreover have "map_of m i = Some a" using assms(2) that by (simp add: store_ok_def)
    moreover have "a \<in> set (getAllAlerts w)" using assms(1) that by (force simp: getAllAlerts_def)
    ultimately show ?thesis using assms(1) by (simp add: storedAlert_def)
  qed
qed

lemma due_reported:
  assumes "storage w = Some m" and "store_ok m" and "(i, a) \<in> set m"
  shows "isDue e a \<longleftrightarrow> i \<in> triggeredIds (cycleLog e w) \<union> undeliveredIds (cycleLog e w)"
proof -
  have a: "alert_id a = i" "a \<in> set (getAllAlerts w)"
    using store_ok_ids(2)[OF assms(1,2,3)] by simp_all
  have inj: "inj_on alert_id (set (getAllAlerts w))"
    using store_ok_ids(1)[OF assms(1,2)] by (simp add: distinct_map)
  show ?thesis
  proof
    assume "isDue e a"
    then show "i \<in> triggeredIds (cycleLog e w) \<union> undeliveredIds (cycleLog e w)"
      unfolding cycle_ids(1) using a by auto
  next
    assume "i \<in> triggeredIds (cycleLog e w) \<union> undeliveredIds (cycleLog e w)"
    then obtain b where b: "b \<in> set (getAllAlerts w)" "isDue e b" "alert_id b = i"
      unfolding cycle_ids(1) by auto
    then have "a = b" using inj a by (auto dest: inj_onD)
    with b show "isDue e a" by simp
  qed
qed

text \<open>Facts about the example data.\<close>

lemma example_fetched:
  "fetched envSendFails k = Some \<lparr>priceUsd = Fin 101, priceChange_h24 = None, volume_h24 = None, marketCap = None\<rparr>"
  "fetched envSendWorks k = Some \<lparr>priceUsd = Fin 101, priceChange_h24 = None, volume_h24 = None, marketCap = None\<rparr>"
  "fetched envP1Down ''P1'' = None"
  "fetched envP1Down ''P2'' = Some \<lparr>priceUsd = Fin 44, priceChange_h24 = None, volume_h24 = None, marketCap = None\<rparr>"
  "fetched envLive90 k = Some \<lparr>priceUsd = Fin 90, priceChange_h24 = None, volume_h24 = None, marketCap = None\<rparr>"
  "fetched envHttp500 k = None"
  by (simp_all add: fetched_def envSendFails_def envSendWorks_def envP1Down_def envLive90_def
      envHttp500_def quote_def)

lemma example_alerts:
  "alert_id alertA = ''a1''" "pairAddress alertA = ''P1''" "alertType alertA = price_above"
  "targetValue alertA = Fin 100" "currentPrice alertA = Fin 90" "chatId alertA = Fin 7"
  "alert_id alertB = ''b1''" "pairAddress alertB = ''P2''" "alertType alertB = percent_change"
  "targetValue alertB = Fin (-10)" "currentPrice alertB = Fin 50" "chatId alertB = Fin 7"
  "alert_id alertA2 = ''a2''" "pairAddress alertA2 = ''P1''" "alertType alertA2 = price_above"
  "targetValue alertA2 = Fin 200" "currentPrice alertA2 = Fin 90" "chatId alertA2 = Fin 7"
  by (simp_all add: alertA_def alertB_def alertA2_def)

lemma example_worlds:
  "storage world0 = None" "getAllAlerts world0 = []"
  "storage world1 = Some [(''a1'', alertA)]" "getAllAlerts world1 = [alertA]"
  "storage world2 = Some [(''a1'', alertA), (''b1'', alertB)]"
  "getAllAlerts world2 = [alertA, alertB]"
  "storage world3 = Some [(''a1'', alertA), (''b1'', alertB), (''a2'', alertA2)]"
  "getAllAlerts world3 = [alertA, alertB, alertA2]"
  "lookups world0 = []" "lookups world1 = []" "lookups world2 = []" "lookups world3 = []"
  "sends world0 = []" "sends world1 = []" "sends world2 = []" "sends world3 = []"
  "logs world0 = []" "logs world1 = []" "logs world2 = []" "logs world3 = []"
  by (simp_all add: world0_def world1_def world2_def world3_def getAllAlerts_def)

lemma example_store_ok:
  "store_ok [(''a1'', alertA)]" "store_ok [(''a1'', alertA), (''b1'', alertB)]"
  "store_ok [(''a1'', alertA), (''b1'', alertB), (''a2'', alertA2)]"
  by (simp_all add: store_ok_def example_alerts)

lemma example_due:
  "isDue envSendFails alertA" "isDue envSendWorks alertA" "\<not> isDue envP1Down alertA"
  "isDue envP1Down alertB" "\<not> isDue envSendWorks alertA2"
proof -
  have pc: "percentChange alertB (Fin 44) = Fin (- 12)"
    by (rule percentChange_alertB(1))
  show "isDue envSendFails alertA" "isDue envSendWorks alertA" "\<not> isDue envP1Down alertA"
    "\<not> isDue envSendWorks alertA2"
    by (simp_all add: isDue_def example_alerts example_fetched shouldTrigger_above js_cmp_Fin)
  show "isDue envP1Down alertB"
    by (simp add: isDue_def example_alerts example_fetched shouldTrigger_percent pc js_cmp_Fin)
qed

lemma example_groups:
  "groupByPair [alertA] = [(''P1'', [alertA])]"
  "groupByPair [alertA, alertB] = [(''P1'', [alertA]), (''P2'', [alertB])]"
  "groupByPair [alertA, alertB, alertA2] = [(''P1'', [alertA, alertA2]), (''P2'', [alertB])]"
  by (simp_all add: groupByPair_def groupStep_def example_alerts)

lemma count_list_distinct: "distinct xs \<Longrightarrow> x \<in> set xs \<Longrightarrow> count_list xs x = 1"
  by (induction xs) auto

text \<open>
  C9. A cycle on an empty store (nothing stored yet, or an empty map) looks up no price,
  sends nothing, leaves the store as it is and ends after writing one console line.
\<close>

theorem empty_store_cycle:
  assumes "getAllAlerts w = []"
  shows "checkAlerts e w = w\<lparr>logs := logs w @ [LogNoActive]\<rparr> \<and>
         cycleLookups e w = [] \<and> cycleSends e w = [] \<and>
         storage (checkAlerts e w) = storage w"
  using assms by (simp add: checkAlerts_def console_def cycleLookups_def cycleSends_def)

theorem empty_store_cycle_witness:
  "getAllAlerts world0 = [] \<and> getAllAlerts (world0\<lparr>storage := Some []\<rparr>) = [] \<and>
   lookups (checkAlerts envSendWorks world0) = [] \<and>
   storage (checkAlerts envSendWorks world0) = None \<and>
   storage (checkAlerts envSendWorks (world0\<lparr>storage := Some []\<rparr>)) = Some []"
  using empty_store_cycle[of world0 envSendWorks]
    empty_store_cycle[of "world0\<lparr>storage := Some []\<rparr>" envSendWorks]
  by (simp add: getAllAlerts_def world0_def)

text \<open>
  C7. The pair addresses a cycle looks up are the keys of the batches, in the order of
  their first alert: each pair address of a stored alert is looked up exactly once,
  however many alerts share it, no other address is looked up, and the batch of an address
  holds exactly the stored alerts with that address.
\<close>

theorem one_lookup_per_pair:
  "cycleLookups e w = map fst (groupByPair (getAllAlerts w)) \<and>
   distinct (cycleLookups e w) \<and>
   set (cycleLookups e w) = pairAddress ` set (getAllAlerts w) \<and>
   (\<forall>a \<in> set (getAllAlerts w). count_list (cycleLookups e w) (pairAddress a) = 1) \<and>
   (\<forall>(k, as) \<in> set (groupByPair (getAllAlerts w)).
      as = filter (\<lambda>a. pairAddress a = k) (getAllAlerts w))"
proof -
  have d: "distinct (cycleLookups e w)"
    by (simp add: cycleLookups_eq groupByPair_distinct)
  have s: "set (cycleLookups e w) = pairAddress ` set (getAllAlerts w)"
    using groupByPair_keys[of "getAllAlerts w"] by (simp add: cycleLookups_eq)
  have c: "\<forall>a \<in> set (getAllAlerts w). count_list (cycleLookups e w) (pairAddress a) = 1"
  proof
    fix a assume "a \<in> set (getAllAlerts w)"
    then have "pairAddress a \<in> set (cycleLookups e w)" unfolding s by (rule imageI)
    then show "count_list (cycleLookups e w) (pairAddress a) = 1"
      by (rule count_list_distinct[OF d])
  qed
  show ?thesis
    using d s c groupByPair_group[of _ _ "getAllAlerts w"] by (auto simp: cycleLookups_eq)
qed

theorem one_lookup_per_pair_witness:
  "length (filter (\<lambda>a. pairAddress a = ''P1'') (getAllAlerts world3)) = 2 \<and>
   count_list (cycleLookups envSendWorks world3) ''P1'' = 1 \<and>
   cycleLookups envSendWorks world3 = [''P1'', ''P2'']"
proof -
  have "alertA \<in> set (getAllAlerts world3)" by (simp add: example_worlds)
  then have "count_list (cycleLookups envSendWorks world3) (pairAddress alertA) = 1"
    using one_lookup_per_pair[of envSendWorks world3] by blast
  moreover have "cycleLookups envSendWorks world3 = [''P1'', ''P2'']"
    using one_lookup_per_pair[of envSendWorks world3]
    by (simp add: example_worlds example_groups)
  ultimately show ?thesis by (simp add: example_worlds example_alerts)
qed

text \<open>
  C10. A cycle only deletes. After it, the stored map is the map before without the
  entries of the ids reported as triggered, in the same order: an id holds after the cycle
  what it held before, or nothing; no id is added, and no stored alert is changed.
\<close>

theorem cycle_only_deletes:
  "storage (checkAlerts e w) = map_option (without (triggeredIds (cycleLog e w))) (storage w) \<and>
   storedAlert (checkAlerts e w) i =
     (if i \<in> triggeredIds (cycleLog e w) then None else storedAlert w i) \<and>
   set (getAllAlerts (checkAlerts e w)) \<subseteq> set (getAllAlerts w) \<and>
   alert_id ` set (getAllAlerts (checkAlerts e w)) \<subseteq> alert_id ` set (getAllAlerts w)"
proof -
  have st: "storage (checkAlerts e w) = map_option (without (triggeredIds (cycleLog e w))) (storage w)"
    using cycle_effect[of w e] by (simp add: effect_def)
  have sub: "set (getAllAlerts (checkAlerts e w)) \<subseteq> set (getAllAlerts w)"
    using set_without[of "triggeredIds (cycleLog e w)"]
    by (cases "storage w") (auto simp: getAllAlerts_def st)
  show ?thesis using st sub cycle_stored[of e w i] by blast
qed





text \<open>
  C8. When the lookup of a pair fails in a cycle (the fetch throws, the status is not ok,
  the body does not parse, or it holds no pairs), every stored alert of that pair is still
  stored after the cycle, unchanged. Every stored alert of another pair has its pair looked
  up in the same cycle and its condition decided: the console reports it, as triggered or
  as not delivered, exactly when it is due, and it leaves the store exactly when it is
  reported as triggered.
\<close>

theorem failed_lookup_isolated:
  assumes "storage w = Some m" and "store_ok m" and "fetched e k = None"
  shows "(\<forall>(i, a) \<in> set m. pairAddress a = k \<longrightarrow> storedAlert (checkAlerts e w) i = Some a) \<and>
         (\<forall>(i, b) \<in> set m. pairAddress b \<noteq> k \<longrightarrow>
            pairAddress b \<in> set (cycleLookups e w) \<and>
            (isDue e b \<longleftrightarrow> i \<in> triggeredIds (cycleLog e w) \<union> undeliveredIds (cycleLog e w)) \<and>
            storedAlert (checkAlerts e w) i =
              (if i \<in> triggeredIds (cycleLog e w) then None else Some b))"
proof -
  have stay: "storedAlert (checkAlerts e w) i = Some a" if "(i, a) \<in> set m" "pairAddress a = k" for i a
  proof -
    have "\<not> isDue e a" using that(2) assms(3) by (simp add: isDue_def)
    then have "i \<notin> triggeredIds (cycleLog e w)"
      using due_reported[OF assms(1,2) that(1), of e] by simp
    then show ?thesis
      using cycle_stored[of e w i] store_ok_ids(2)[OF assms(1,2) that(1)] by simp
  qed
  have other: "pairAddress b \<in> set (cycleLookups e w) \<and>
      (isDue e b \<longleftrightarrow> i \<in> triggeredIds (cycleLog e w) \<union> undeliveredIds (cycleLog e w)) \<and>
      storedAlert (checkAlerts e w) i = (if i \<in> triggeredIds (cycleLog e w) then None else Some b)"
    if "(i, b) \<in> set m" for i b
  proof -
    have b: "storedAlert w i = Some b" "b \<in> set (getAllAlerts w)"
      using store_ok_ids(2)[OF assms(1,2) that] by simp_all
    have "pairAddress b \<in> set (cycleLookups e w)"
      using b(2) groupByPair_keys[of "getAllAlerts w"] by (simp add: cycleLookups_eq)
    then show ?thesis
      using due_reported[OF assms(1,2) that, of e] cycle_stored[of e w i] b(1) by simp
  qed
  show ?thesis using stay other by blast
qed

theorem failed_lookup_isolated_witness:
  "storage world2 = Some [(''a1'', alertA), (''b1'', alertB)] \<and>
   store_ok [(''a1'', alertA), (''b1'', alertB)] \<and> fetched envP1Down ''P1'' = None \<and>
   pairAddress alertA = ''P1'' \<and> pairAddress alertB = ''P2'' \<and>
   storedAlert (checkAlerts envP1Down world2) ''a1'' = Some alertA \<and>
   ''P2'' \<in> set (cycleLookups envP1Down world2) \<and> isDue envP1Down alertB \<and>
   ''b1'' \<in> triggeredIds (cycleLog envP1Down world2) \<and>
   storedAlert (checkAlerts envP1Down world2) ''b1'' = None"
proof -
  have s: "\<forall>n c t. sendMessage envP1Down n c t" by (simp add: envP1Down_def)
  have u: "undeliveredIds (cycleLog envP1Down world2) = {}" using cycle_ids(4)[OF s] .
  show ?thesis
    using failed_lookup_isolated[OF example_worlds(5) example_store_ok(2) example_fetched(3)] u
    by (simp add: example_worlds example_store_ok example_fetched example_alerts example_due)
qed

lemma cancelAlert_answer:
  "fst (cancelAlert e w i c) =
     [Lit ''Alert '', Lit i,
      Lit '' could not be located. It may have already been triggered or previously canceled.''] \<and>
   storage (snd (cancelAlert e w i c)) = map_option (AList.delete i) (storage w)"
  by (cases "storage w") (simp_all add: cancelAlert_def removeAlert_def)

text \<open>
  C2. \<^verbatim>\<open>removeAlert\<close> deletes the entry of an id and resolves to \<^verbatim>\<open>undefined\<close>, so the tool
  \<^verbatim>\<open>cancelAlert\<close>, which reads the removed alert from it, answers that the alert could not
  be located whenever it is called, also the first time for a stored alert, which it has
  just removed. Here the alert \<open>a1\<close> is stored, is cancelled and is gone, and the answer is
  the one for an unknown id.
\<close>

theorem cancel_stored_alert_not_located:
  "storedAlert world1 ''a1'' = Some alertA \<and>
   fst (removeAlert world1 ''a1'') = None \<and>
   fst (cancelAlert envSendWorks world1 ''a1'' (Some (Fin 7))) =
     [Lit ''Alert '', Lit ''a1'',
      Lit '' could not be located. It may have already been triggered or previously canceled.''] \<and>
   storedAlert (snd (cancelAlert envSendWorks world1 ''a1'' (Some (Fin 7)))) ''a1'' = None"
  using cancelAlert_answer[of envSendWorks world1 "''a1''" "Some (Fin 7)"]
  by (simp add: storedAlert_def example_worlds removeAlert_fst)

text \<open>Listing.\<close>

lemma pricesStep_snd:
  "snd (pricesStep e s (k, as)) =
     snd s @ map (\<lambda>a. (a, case fetched e k of None \<Rightarrow> currentPrice a | Some pd \<Rightarrow> priceUsd pd)) as"
  by (cases s)
    (simp add: pricesStep_def fetched_def Let_def
      split: fetch_result.splits json_result.splits option.splits list.splits)

lemma pricesStep_fst:
  "lookups (fst (pricesStep e s (k, as))) = lookups (fst s) @ [k]"
  "replies (fst (pricesStep e s (k, as))) = replies (fst s)"
  "storage (fst (pricesStep e s (k, as))) = storage (fst s)"
  "sends (fst (pricesStep e s (k, as))) = sends (fst s)"
  by (cases s; simp add: pricesStep_def Let_def
      split: fetch_result.splits json_result.splits option.splits list.splits)+

lemma foldl_pricesStep:
  assumes "\<forall>(k, as) \<in> set gs. \<forall>a \<in> set as. pairAddress a = k"
  shows "snd (foldl (pricesStep e) s gs) =
           snd s @ map (\<lambda>a. (a, shownPrice e a)) (concat (map snd gs)) \<and>
         lookups (fst (foldl (pricesStep e) s gs)) = lookups (fst s) @ map fst gs \<and>
         replies (fst (foldl (pricesStep e) s gs)) = replies (fst s) \<and>
         storage (fst (foldl (pricesStep e) s gs)) = storage (fst s) \<and>
         sends (fst (foldl (pricesStep e) s gs)) = sends (fst s)"
  using assms
proof (induction gs arbitrary: s)
  case Nil
  show ?case by simp
next
  case (Cons g gs)
  obtain k as where g: "g = (k, as)" by (cases g)
  have same: "\<forall>a \<in> set as. pairAddress a = k" using Cons.prems by (simp add: g)
  have shown: "map (\<lambda>a. (a, case fetched e k of None \<Rightarrow> currentPrice a | Some pd \<Rightarrow> priceUsd pd)) as =
      map (\<lambda>a. (a, shownPrice e a)) as"
    using same by (simp add: shownPrice_def)
  have rest: "\<forall>(k, as) \<in> set gs. \<forall>a \<in> set as. pairAddress a = k" using Cons.prems by simp
  show ?case
    using Cons.IH[OF rest, of "pricesStep e s (k, as)"]
    by (simp add: g pricesStep_snd pricesStep_fst shown)
qed

lemma groupStep_mset:
  "mset (concat (map snd (groupStep pm a))) = mset (concat (map snd pm)) + {#a#}"
  by (induction pm) (auto simp: groupStep_def Let_def)

lemma groupByPair_mset: "mset (concat (map snd (groupByPair xs))) = mset xs"
proof (induction xs rule: rev_induct)
  case Nil
  show ?case by (simp add: groupByPair_def)
next
  case (snoc x xs)
  have "groupByPair (xs @ [x]) = groupStep (groupByPair xs) x" by (simp add: groupByPair_def)
  then show ?case using snoc by (simp add: groupStep_mset)
qed

lemma groupByPair_same:
  "\<forall>(k, as) \<in> set (groupByPair xs). \<forall>a \<in> set as. pairAddress a = k"
  using groupByPair_group[of _ _ xs] by fastforce

text \<open>
  C4, as the code has it. \<^verbatim>\<open>/myalerts\<close> lists exactly the stored alerts of the chat, batch
  by batch, each with the price just fetched for its pair address, one lookup for each
  address; when the lookup of an address fails, the alerts of that address are listed with
  the price stored with them. The reply is built from the alerts and these prices alone:
  an entry with a stored price has the form of an entry with a fetched price, and nothing
  in the reply marks it as stale.
\<close>

theorem listing_prices:
  "snd (alertsWithPrices e w c) =
     map (\<lambda>a. (a, shownPrice e a)) (concat (map snd (groupByPair (getAlertsForChat w c)))) \<and>
   mset (map fst (snd (alertsWithPrices e w c))) =
     mset (filter (\<lambda>a. js_eq (chatId a) c) (getAllAlerts w)) \<and>
   lookups (fst (alertsWithPrices e w c)) =
     lookups w @ map fst (groupByPair (getAlertsForChat w c)) \<and>
   distinct (map fst (groupByPair (getAlertsForChat w c))) \<and>
   storage (myalerts e w c) = storage w \<and>
   replies (myalerts e w c) = replies w @
     (if getAlertsForChat w c = []
      then [[Lit ''You currently have no active price alerts configured.'']]
      else [[Lit ''Fetching current market prices...''],
            [Lit ''*Active Price Alerts* ('',
             Num (Fin (real (length (getAlertsForChat w c)))), Lit '')'', NL, NL] @
            alertList (map (\<lambda>a. (a, shownPrice e a))
                         (concat (map snd (groupByPair (getAlertsForChat w c)))))])"
proof -
  define xs where "xs = getAlertsForChat w c"
  define s0 where "s0 = (reply [Lit ''Fetching current market prices...''] w, [] :: (PriceAlert \<times> jsnum) list)"
  have awp: "alertsWithPrices e w c = foldl (pricesStep e) s0 (groupByPair xs)"
    by (simp add: alertsWithPrices_def s0_def xs_def)
  note f = foldl_pricesStep[OF groupByPair_same[of xs], of e s0]
  have items: "snd (alertsWithPrices e w c) =
      map (\<lambda>a. (a, shownPrice e a)) (concat (map snd (groupByPair xs)))"
    using f by (simp add: awp s0_def)
  have ms: "mset (map fst (snd (alertsWithPrices e w c))) = mset xs"
    unfolding items by (simp add: comp_def groupByPair_mset)
  have len: "length (snd (alertsWithPrices e w c)) = length xs"
    using ms by (metis length_map size_mset)
  have lk: "lookups (fst (alertsWithPrices e w c)) = lookups w @ map fst (groupByPair xs)"
    and rp: "replies (fst (alertsWithPrices e w c)) = replies w @ [[Lit ''Fetching current market prices...'']]"
    and st: "storage (fst (alertsWithPrices e w c)) = storage w"
    using f by (simp_all add: awp s0_def)
  have my: "myalerts e w c =
      (if xs = [] then reply [Lit ''You currently have no active price alerts configured.''] w
       else reply ([Lit ''*Active Price Alerts* ('', Num (Fin (real (length (snd (alertsWithPrices e w c))))),
                    Lit '')'', NL, NL] @ alertList (snd (alertsWithPrices e w c)))
              (fst (alertsWithPrices e w c)))"
    by (simp add: myalerts_def xs_def split: prod.splits)
  have "storage (myalerts e w c) = storage w"
    by (simp add: my st)
  moreover have "replies (myalerts e w c) = replies w @
     (if xs = []
      then [[Lit ''You currently have no active price alerts configured.'']]
      else [[Lit ''Fetching current market prices...''],
            [Lit ''*Active Price Alerts* ('', Num (Fin (real (length xs))), Lit '')'', NL, NL] @
            alertList (map (\<lambda>a. (a, shownPrice e a)) (concat (map snd (groupByPair xs))))])"
    by (simp add: my rp len items[symmetric])
  ultimately show ?thesis
    using items ms lk groupByPair_distinct[of xs]
    unfolding xs_def getAlertsForChat_def[symmetric] by (simp add: getAlertsForChat_def)
qed

text \<open>The claim C4 as it was stated fails: with the alert \<open>alertA\<close> stored at the price 90,
  \<^verbatim>\<open>/myalerts\<close> ends in the same state, with the same reply, when the price service answers
  with status 500 and when it answers with the live price 90; the reply shows the stored
  price as the current one.\<close>

theorem stale_price_not_marked:
  "fetched envHttp500 ''P1'' = None \<and>
   fetched envLive90 ''P1'' =
     Some \<lparr>priceUsd = Fin 90, priceChange_h24 = None, volume_h24 = None, marketCap = None\<rparr> \<and>
   myalerts envHttp500 world1 (Fin 7) = myalerts envLive90 world1 (Fin 7) \<and>
   replies (myalerts envHttp500 world1 (Fin 7)) =
     [[Lit ''Fetching current market prices...''],
      [Lit ''*Active Price Alerts* ('', Num (Fin 1), Lit '')'', NL, NL,
       Num (Fin 1), Lit ''. '', Lit ''Token A'', Lit '' ('', Lit ''AAA'', Lit '')'', NL,
       Lit ''   Chain: '', Upper ''eth'', NL,
       Lit ''   Current: $'', Fixed (Fin 90) 2, NL,
       Lit ''   Alert: '', Lit ''above $'', Num (Fin 100)]]"
proof -
  have chat: "getAlertsForChat world1 (Fin 7) = [alertA]"
    by (simp add: getAlertsForChat_def example_worlds example_alerts js_cmp_Fin)
  have a500: "alertsWithPrices envHttp500 world1 (Fin 7) =
      ((reply [Lit ''Fetching current market prices...''] world1)\<lparr>lookups := [''P1'']\<rparr>, [(alertA, Fin 90)])"
    by (simp add: alertsWithPrices_def chat example_groups pricesStep_def envHttp500_def
        example_alerts example_worlds)
  have a90: "alertsWithPrices envLive90 world1 (Fin 7) =
      ((reply [Lit ''Fetching current market prices...''] world1)\<lparr>lookups := [''P1'']\<rparr>, [(alertA, Fin 90)])"
    by (simp add: alertsWithPrices_def chat example_groups pricesStep_def envLive90_def quote_def
        example_alerts example_worlds)
  have entry: "alertList [(alertA, Fin 90)] =
      [Num (Fin 1), Lit ''. '', Lit ''Token A'', Lit '' ('', Lit ''AAA'', Lit '')'', NL,
       Lit ''   Chain: '', Upper ''eth'', NL,
       Lit ''   Current: $'', Fixed (Fin 90) 2, NL,
       Lit ''   Alert: '', Lit ''above $'', Num (Fin 100)]"
    by (simp add: alertList_def alertEntry_def condition_def priceFormatted_def js_cmp_Fin
        alertA_def)
  have r: "replies world1 = []" by (simp add: world1_def world0_def)
  show ?thesis
    by (simp add: example_fetched myalerts_def chat a500 a90 entry r)
qed

end
